theory Spec2Isabelle
  imports Complex_Main "HOL-Library.Log_Nat" "HOL-Library.Option_ord" "HOL-Library.Multiset"
begin

section \<open>Python values, exceptions and library functions\<close>

text \<open>
  The repository is a Django application; its enrichment pipeline calls a handful of
  library functions (\<open>json.loads\<close>, \<open>json.dumps\<close>, \<open>re.search\<close>, \<open>int\<close>,
  \<open>requests.post\<close>). This section models what those calls return and raise.
  A text is a HOL \<open>string\<close> that holds the UTF-8 code units of the Python \<open>str\<close>:
  an ASCII character is one unit, any other code point two to four. The functions that
  look at single characters (\<open>\d\<close>, \<open>int\<close>, \<open>str.strip\<close>, indexing, the encoder)
  read the code points of the text.
\<close>

subsection \<open>Exceptions\<close>

text \<open>
  The exception classes that the two pipeline functions raise or name in an
  \<open>except\<close> clause. \<open>HTTPError\<close> derives from \<open>RequestException\<close>
  (connection errors and timeouts are raised as \<open>RequestException\<close>), and
  \<open>JSONDecodeError\<close> derives from \<open>ValueError\<close>. \<open>RecursionError\<close> is what the
  decoder raises on a text that is nested too deeply.
\<close>

datatype pyexc =
    RequestException | HTTPError | JSONDecodeError | KeyError
  | ValueError | IndexError | TypeError | OverflowError | AttributeError | RecursionError

definition isinstance :: "pyexc \<Rightarrow> pyexc \<Rightarrow> bool" where
  "isinstance e c =
     (e = c \<or> (e = HTTPError \<and> c = RequestException) \<or> (e = JSONDecodeError \<and> c = ValueError))"

definition except_matches :: "pyexc list \<Rightarrow> pyexc \<Rightarrow> bool" where
  "except_matches classes e = list_ex (isinstance e) classes"

subsection \<open>JSON values\<close>

text \<open>
  A float is the rational it denotes exactly, or one of the three non-finite values.
  A JSON object is an association list with distinct keys in insertion order, as a
  Python \<open>dict\<close> is.
\<close>

datatype pyfloat = Finite rat | PosInf | NegInf | NaN

datatype json =
    JNull | JBool bool | JInt int | JFloat pyfloat | JStr string
  | JArr "json list" | JObj "(string \<times> json) list"

fun dict_set :: "string \<Rightarrow> json \<Rightarrow> (string \<times> json) list \<Rightarrow> (string \<times> json) list" where
  "dict_set k v [] = [(k, v)]"
| "dict_set k v ((k', v') # kvs) =
     (if k = k' then (k, v) # kvs else (k', v') # dict_set k v kvs)"

subsection \<open>Characters and decimal numerals\<close>

definition is_digit :: "char \<Rightarrow> bool" where
  "is_digit c = (c \<in> set ''0123456789'')"

definition digit_val :: "char \<Rightarrow> int" where
  "digit_val c = of_char c - 48"

definition dec_value :: "string \<Rightarrow> int" where
  "dec_value ds = foldl (\<lambda>acc c. 10 * acc + digit_val c) 0 ds"

definition hex_val :: "char \<Rightarrow> int option" where
  "hex_val c =
     (let n = (of_char c :: int) in
      if 48 \<le> n \<and> n \<le> 57 then Some (n - 48)
      else if 97 \<le> n \<and> n \<le> 102 then Some (n - 87)
      else if 65 \<le> n \<and> n \<le> 70 then Some (n - 55)
      else None)"

fun hex4 :: "string \<Rightarrow> (int \<times> string) option" where
  "hex4 (a # b # c # d # rest) =
     (case (hex_val a, hex_val b, hex_val c, hex_val d) of
        (Some x, Some y, Some z, Some w) \<Rightarrow> Some (((x * 16 + y) * 16 + z) * 16 + w, rest)
      | _ \<Rightarrow> None)"
| "hex4 _ = None"

subsection \<open>Code points\<close>

text \<open>
  \<open>utf8\<close> gives the code units of a code point (a lone surrogate, which a Python
  \<open>str\<close> can hold, has three like its neighbours). \<open>code_points\<close> reads a text back;
  a unit that does not start a well-formed sequence is read as the code point of its own
  value.
\<close>

definition utf8 :: "int \<Rightarrow> string" where
  "utf8 cp =
     (if cp < 0x80 then [char_of cp]
      else if cp < 0x800 then [char_of (0xC0 + cp div 64), char_of (0x80 + cp mod 64)]
      else if cp < 0x10000 then
        [char_of (0xE0 + cp div 4096), char_of (0x80 + cp div 64 mod 64),
         char_of (0x80 + cp mod 64)]
      else
        [char_of (0xF0 + cp div 262144), char_of (0x80 + cp div 4096 mod 64),
         char_of (0x80 + cp div 64 mod 64), char_of (0x80 + cp mod 64)])"

definition is_continuation :: "char \<Rightarrow> bool" where
  "is_continuation c = (0x80 \<le> (of_char c :: int) \<and> (of_char c :: int) < 0xC0)"

definition sequence_length :: "char \<Rightarrow> nat" where
  "sequence_length c =
     (let n = (of_char c :: int) in
      if n < 0xC0 then 0 else if n < 0xE0 then 1 else if n < 0xF0 then 2 else 3)"

definition lead_bits :: "char \<Rightarrow> int" where
  "lead_bits c =
     (let n = (of_char c :: int) in
      if n < 0xC0 then n else if n < 0xE0 then n mod 32 else if n < 0xF0 then n mod 16
      else n mod 8)"

function code_points :: "string \<Rightarrow> int list" where
  "code_points [] = []"
| "code_points (c # cs) =
     (let k = sequence_length c in
      if k \<le> length cs \<and> list_all is_continuation (take k cs)
      then foldl (\<lambda>acc u. acc * 64 + of_char u mod 64) (lead_bits c) (take k cs)
             # code_points (drop k cs)
      else of_char c # code_points cs)"
  by pat_completeness auto
termination
  by (relation "measure length") auto

text \<open>
  The decimal digits of the Unicode database (version 14.0, that of Python 3.11): each
  script has its ten digits in a row, and the list names the code point of every zero.
  They are the characters that \<open>\d\<close> matches and that \<open>int\<close> reads as digits.
\<close>

definition decimal_zeros :: "int list" where
  "decimal_zeros =
     [48, 1632, 1776, 1984, 2406, 2534, 2662, 2790, 2918, 3046, 3174, 3302, 3430, 3558,
      3664, 3792, 3872, 4160, 4240, 6112, 6160, 6470, 6608, 6784, 6800, 6992, 7088, 7232,
      7248, 42528, 43216, 43264, 43472, 43504, 43600, 44016, 65296, 66720, 68912, 69734,
      69872, 69942, 70096, 70384, 70736, 70864, 71248, 71360, 71472, 71904, 72016, 72784,
      73040, 73120, 92768, 92864, 93008, 120782, 120792, 120802, 120812, 120822, 123200,
      123632, 125264, 130032]"

definition decimal_value :: "int \<Rightarrow> int option" where
  "decimal_value cp =
     map_option (\<lambda>z. cp - z) (find (\<lambda>z. z \<le> cp \<and> cp < z + 10) decimal_zeros)"

definition is_decimal :: "int \<Rightarrow> bool" where
  "is_decimal cp = (decimal_value cp \<noteq> None)"

definition decimal_number :: "int list \<Rightarrow> int" where
  "decimal_number ds =
     foldl (\<lambda>acc cp. 10 * acc + (case decimal_value cp of None \<Rightarrow> 0 | Some d \<Rightarrow> d)) 0 ds"

subsection \<open>\<open>json.loads\<close>: the scanner\<close>

text \<open>
  The decoder in its default (strict) mode: whitespace is space, tab, line feed and
  carriage return; a string may not hold a raw control character; the constants
  \<open>NaN\<close>, \<open>Infinity\<close> and \<open>-Infinity\<close> are accepted; a number without fraction
  and exponent is an \<open>int\<close>, any other a \<open>float\<close>. The decoder reads the text from
  left to right and raises at the first thing that is wrong: \<open>JSONDecodeError\<close> for a
  syntax error, \<open>ValueError\<close> for an integer literal of more digits than \<open>int\<close>
  converts (4300, the default of \<open>sys.set_int_max_str_digits\<close>), \<open>RecursionError\<close>
  for a container that is nested deeper than the interpreter has room for. So the
  scanner cuts the text into tokens up to the first character it cannot read, where it
  leaves \<open>TBad\<close>; \<open>TBig\<close> is an integer literal that is too long.
\<close>

definition int_max_str_digits :: int where
  "int_max_str_digits = 4300"

datatype token =
    TLBrace | TRBrace | TLBrack | TRBrack | TColon | TComma | TLit json | TBig | TBad

definition unescape :: "char \<Rightarrow> char option" where
  "unescape e =
     (if e = CHR 0x22 then Some (CHR 0x22)
      else if e = CHR 0x5C then Some (CHR 0x5C)
      else if e = CHR ''/'' then Some (CHR ''/'')
      else if e = CHR ''b'' then Some (CHR 0x08)
      else if e = CHR ''f'' then Some (CHR 0x0C)
      else if e = CHR ''n'' then Some (CHR 0x0A)
      else if e = CHR ''r'' then Some (CHR 0x0D)
      else if e = CHR ''t'' then Some (CHR 0x09)
      else None)"

text \<open>A high surrogate escape that is followed by a low surrogate escape makes one
  code point with it.\<close>

definition low_surrogate_after :: "int \<Rightarrow> string \<Rightarrow> (int \<times> string) option" where
  "low_surrogate_after cp rest =
     (if 0xD800 \<le> cp \<and> cp \<le> 0xDBFF then
        (case rest of
           b # u # r \<Rightarrow>
             if b = CHR 0x5C \<and> u = CHR ''u'' then
               (case hex4 r of
                  Some (cp2, rest2) \<Rightarrow>
                    if 0xDC00 \<le> cp2 \<and> cp2 \<le> 0xDFFF
                    then Some (0x10000 + (cp - 0xD800) * 1024 + (cp2 - 0xDC00), rest2)
                    else None
                | None \<Rightarrow> None)
             else None
         | _ \<Rightarrow> None)
      else None)"

definition push_text :: "string \<Rightarrow> (string \<times> string) option \<Rightarrow> (string \<times> string) option" where
  "push_text t r = map_option (\<lambda>(s, rest). (t @ s, rest)) r"

lemma hex4_shorter: "hex4 cs = Some (cp, rest) \<Longrightarrow> length rest < length cs"
  by (cases cs rule: hex4.cases) (auto split: option.splits)

lemma low_surrogate_after_shorter:
  "low_surrogate_after cp rest = Some (cp2, rest2) \<Longrightarrow> length rest2 < length rest"
  by (auto simp: low_surrogate_after_def split: if_splits list.splits option.splits
      dest!: hex4_shorter)

text \<open>\<open>scanstring cs\<close> reads a string body after its opening quote and returns the
  decoded string and the text after the closing quote.\<close>

function scanstring :: "string \<Rightarrow> (string \<times> string) option" where
  "scanstring [] = None"
| "scanstring (c # cs) =
     (if c = CHR 0x22 then Some ([], cs)
      else if c = CHR 0x5C then
        (case cs of
           [] \<Rightarrow> None
         | e # cs' \<Rightarrow>
             if e = CHR ''u'' then
               (case hex4 cs' of
                  None \<Rightarrow> None
                | Some (cp, rest) \<Rightarrow>
                    (case low_surrogate_after cp rest of
                       Some (pair, rest2) \<Rightarrow> push_text (utf8 pair) (scanstring rest2)
                     | None \<Rightarrow> push_text (utf8 cp) (scanstring rest)))
             else
               (case unescape e of
                  None \<Rightarrow> None
                | Some ch \<Rightarrow> push_text [ch] (scanstring cs')))
      else if (of_char c :: nat) < 32 then None
      else push_text [c] (scanstring cs))"
  by pat_completeness auto
termination
  by (relation "measure length")
     (auto dest!: hex4_shorter low_surrogate_after_shorter)

lemma push_text_Some:
  "push_text t r = Some (s, rest) \<longleftrightarrow> (\<exists>s'. r = Some (s', rest) \<and> s = t @ s')"
  by (cases r) (auto simp: push_text_def)

lemma scanstring_shorter: "scanstring cs = Some (s, rest) \<Longrightarrow> length rest < length cs"
proof (induction "length cs" arbitrary: cs s rest rule: less_induct)
  case less
  note IH = less.hyps
  from less.prems obtain c cs0 where cs: "cs = c # cs0"
    by (cases cs) auto
  consider (quote) "c = CHR 0x22"
    | (plain) "c \<noteq> CHR 0x22" "c \<noteq> CHR 0x5C"
    | (esc) "c \<noteq> CHR 0x22" "c = CHR 0x5C"
    by blast
  then show ?case
  proof cases
    case quote
    with less.prems cs show ?thesis by simp
  next
    case plain
    with less.prems cs obtain s' where "scanstring cs0 = Some (s', rest)"
      by (auto simp: push_text_Some split: if_splits)
    from IH[OF _ this] cs show ?thesis by simp
  next
    case esc
    with less.prems cs obtain e cs' where cs0: "cs0 = e # cs'"
      by (cases cs0) auto
    show ?thesis
    proof (cases "e = CHR ''u''")
      case False
      with esc less.prems cs cs0 obtain s' where "scanstring cs' = Some (s', rest)"
        by (auto simp: push_text_Some split: option.splits)
      from IH[OF _ this] cs cs0 show ?thesis by simp
    next
      case True
      with esc less.prems cs cs0 obtain cp r where h: "hex4 cs' = Some (cp, r)"
        by (auto split: option.splits)
      note hl = hex4_shorter[OF h]
      show ?thesis
      proof (cases "low_surrogate_after cp r")
        case None
        with True esc less.prems cs cs0 h obtain s' where sc: "scanstring r = Some (s', rest)"
          by (auto simp: push_text_Some)
        have "length r < length cs" using hl cs cs0 by simp
        from IH[OF this sc] hl cs cs0 show ?thesis by simp
      next
        case (Some pr)
        obtain pair r2 where pr: "pr = (pair, r2)" by (cases pr)
        with Some have Some: "low_surrogate_after cp r = Some (pair, r2)" by simp
        with True esc less.prems cs cs0 h obtain s' where sc: "scanstring r2 = Some (s', rest)"
          by (auto simp: push_text_Some)
        note ll = low_surrogate_after_shorter[OF Some]
        have "length r2 < length cs" using hl ll cs cs0 by simp
        from IH[OF this sc] hl ll cs cs0 show ?thesis by simp
      qed
    qed
  qed
qed

text \<open>
  A decimal literal with a fraction or an exponent becomes the nearest double,
  ties to even, and infinity from \<open>2 ^ 1024\<close> on.
\<close>

definition pow2 :: "int \<Rightarrow> rat" where
  "pow2 k = (if 0 \<le> k then 2 ^ nat k else 1 / 2 ^ nat (- k))"

definition ilog2 :: "rat \<Rightarrow> int" where
  "ilog2 x =
     (let (a, b) = quotient_of x;
          k = bitlen a - bitlen b
      in if pow2 k \<le> x then k else k - 1)"

definition round_half_even :: "rat \<Rightarrow> int" where
  "round_half_even x =
     (let f = \<lfloor>x\<rfloor>; d = x - of_int f
      in if d < 1 / 2 then f else if 1 / 2 < d then f + 1 else if even f then f else f + 1)"

definition double_of_rat :: "rat \<Rightarrow> pyfloat" where
  "double_of_rat x =
     (if x = 0 then Finite 0
      else let q = pow2 (max (ilog2 x) (- 1022) - 52);
               r = of_int (round_half_even (x / q)) * q
           in if pow2 1024 \<le> r then PosInf else Finite r)"

definition float_of_decimal :: "bool \<Rightarrow> int \<Rightarrow> int \<Rightarrow> pyfloat" where
  "float_of_decimal neg m e =
     (case double_of_rat (of_int m * (if 0 \<le> e then 10 ^ nat e else 1 / 10 ^ nat (- e))) of
        Finite r \<Rightarrow> Finite (if neg then - r else r)
      | PosInf \<Rightarrow> (if neg then NegInf else PosInf)
      | f \<Rightarrow> f)"

text \<open>A number is \<open>-?(0|[1-9]\d*)(\.\d+)?([eE][-+]?\d+)?\<close>, matched greedily.\<close>

definition scan_int_part :: "string \<Rightarrow> string" where
  "scan_int_part s =
     (case s of [] \<Rightarrow> [] | c # r \<Rightarrow> if c = CHR ''0'' then [c] else takeWhile is_digit s)"

definition scan_frac :: "string \<Rightarrow> string \<times> string" where
  "scan_frac s =
     (case s of
        [] \<Rightarrow> ([], s)
      | c # r \<Rightarrow>
          if c = CHR ''.'' \<and> takeWhile is_digit r \<noteq> []
          then (takeWhile is_digit r, dropWhile is_digit r) else ([], s))"

definition scan_exp :: "string \<Rightarrow> int option \<times> string" where
  "scan_exp s =
     (case s of
        [] \<Rightarrow> (None, s)
      | c # r \<Rightarrow>
          if c = CHR ''e'' \<or> c = CHR ''E'' then
            (let (neg, r') =
                   (case r of
                      [] \<Rightarrow> (False, r)
                    | d # r2 \<Rightarrow>
                        if d = CHR ''-'' then (True, r2)
                        else if d = CHR ''+'' then (False, r2) else (False, r));
                 ds = takeWhile is_digit r'
             in if ds = [] then (None, s)
                else (Some (if neg then - dec_value ds else dec_value ds),
                      dropWhile is_digit r'))
          else (None, s))"

definition scan_number :: "string \<Rightarrow> (token \<times> string) option" where
  "scan_number s =
     (let (neg, s1) =
            (case s of
               [] \<Rightarrow> (False, s)
             | c # r \<Rightarrow> if c = CHR ''-'' then (True, r) else (False, s));
          ip = scan_int_part s1
      in if ip = [] then None
         else
           let s2 = drop (length ip) s1;
               (fp, s3) = scan_frac s2;
               (ex, s4) = scan_exp s3
           in if fp = [] \<and> ex = None
              then Some (if int_max_str_digits < int (length ip) then TBig
                         else TLit (JInt (if neg then - dec_value ip else dec_value ip)), s2)
              else Some (TLit (JFloat (float_of_decimal neg (dec_value (ip @ fp))
                                   ((case ex of None \<Rightarrow> 0 | Some e \<Rightarrow> e) - int (length fp)))),
                         s4))"

lemma scan_frac_length: "scan_frac s = (fp, r) \<Longrightarrow> length r \<le> length s"
  by (auto simp: scan_frac_def split: list.splits if_splits
      intro: le_SucI length_dropWhile_le)

lemma scan_exp_length: "scan_exp s = (ex, r) \<Longrightarrow> length r \<le> length s"
proof (cases s)
  case Nil
  assume "scan_exp s = (ex, r)"
  with Nil show ?thesis by (simp add: scan_exp_def)
next
  case (Cons c t)
  assume h: "scan_exp s = (ex, r)"
  have a: "length (dropWhile is_digit u) \<le> length u" for u
    by (rule length_dropWhile_le)
  from h Cons show ?thesis
    using a[of t] a[of "tl t"]
    by (cases t) (auto simp: scan_exp_def Let_def split: if_splits)
qed

lemma scan_int_part_nonempty:
  "scan_int_part s \<noteq> [] \<Longrightarrow> s \<noteq> [] \<and> length (scan_int_part s) \<le> length s"
  by (auto simp: scan_int_part_def split: list.splits if_splits
      intro: le_trans[OF length_takeWhile_le])

lemma scan_number_shorter: "scan_number s = Some (v, rest) \<Longrightarrow> length rest < length s"
proof -
  assume h: "scan_number s = Some (v, rest)"
  define s1 where "s1 = (case s of [] \<Rightarrow> s | c # r \<Rightarrow> if c = CHR ''-'' then r else s)"
  define ip where "ip = scan_int_part s1"
  define s2 where "s2 = drop (length ip) s1"
  obtain fp s3 where f: "scan_frac s2 = (fp, s3)" by (cases "scan_frac s2")
  obtain ex s4 where e: "scan_exp s3 = (ex, s4)" by (cases "scan_exp s3")
  have s1: "length s1 \<le> length s"
    by (auto simp: s1_def split: list.splits)
  have unf: "scan_number s =
      (if ip = [] then None
       else if fp = [] \<and> ex = None
         then Some (if int_max_str_digits < int (length ip) then TBig
                    else TLit (JInt (if (case s of [] \<Rightarrow> False | c # r \<Rightarrow> c = CHR ''-'')
                          then - dec_value ip else dec_value ip)), s2)
         else Some (TLit (JFloat (float_of_decimal (case s of [] \<Rightarrow> False | c # r \<Rightarrow> c = CHR ''-'')
                     (dec_value (ip @ fp))
                     ((case ex of None \<Rightarrow> 0 | Some e \<Rightarrow> e) - int (length fp)))), s4))"
    using f e
    by (auto simp: scan_number_def Let_def s1_def ip_def s2_def split: list.splits)
  from h unf have ne: "ip \<noteq> []" by (auto split: if_splits)
  with scan_int_part_nonempty[of s1] have "s1 \<noteq> []" "length ip \<le> length s1"
    by (auto simp: ip_def)
  with ne have s2: "length s2 < length s1"
    by (cases ip) (auto simp: s2_def)
  from scan_frac_length[OF f] scan_exp_length[OF e] have "length s4 \<le> length s2" by simp
  moreover from h unf ne have "rest = s2 \<or> rest = s4" by (auto split: if_splits)
  ultimately show ?thesis using s1 s2 by auto
qed

definition is_json_ws :: "char \<Rightarrow> bool" where
  "is_json_ws c = (c \<in> set [CHR '' '', CHR 0x09, CHR 0x0A, CHR 0x0D])"

definition starts_with :: "string \<Rightarrow> string \<Rightarrow> bool" where
  "starts_with kw s = (take (length kw) s = kw)"

function tokens :: "string \<Rightarrow> token list" where
  "tokens [] = []"
| "tokens (c # cs) =
     (if is_json_ws c then tokens cs
      else if c = CHR ''{'' then TLBrace # tokens cs
      else if c = CHR ''}'' then TRBrace # tokens cs
      else if c = CHR ''['' then TLBrack # tokens cs
      else if c = CHR '']'' then TRBrack # tokens cs
      else if c = CHR '':'' then TColon # tokens cs
      else if c = CHR '','' then TComma # tokens cs
      else if c = CHR 0x22 then
        (case scanstring cs of
           None \<Rightarrow> [TBad]
         | Some (s, rest) \<Rightarrow> TLit (JStr s) # tokens rest)
      else if starts_with ''null'' (c # cs) then TLit JNull # tokens (drop 3 cs)
      else if starts_with ''true'' (c # cs) then TLit (JBool True) # tokens (drop 3 cs)
      else if starts_with ''false'' (c # cs) then TLit (JBool False) # tokens (drop 4 cs)
      else if starts_with ''NaN'' (c # cs) then TLit (JFloat NaN) # tokens (drop 2 cs)
      else if starts_with ''Infinity'' (c # cs) then TLit (JFloat PosInf) # tokens (drop 7 cs)
      else if starts_with ''-Infinity'' (c # cs) then TLit (JFloat NegInf) # tokens (drop 8 cs)
      else
        (case scan_number (c # cs) of
           None \<Rightarrow> [TBad]
         | Some (t, rest) \<Rightarrow> t # tokens rest))"
  by pat_completeness auto
termination
  by (relation "measure length")
     (auto dest!: scanstring_shorter scan_number_shorter)

subsection \<open>\<open>json.loads\<close>: the parser\<close>

text \<open>
  The grammar of values, arrays and objects as a machine over the tokens: a stack of the
  containers that are open, and what may come next. A repeated key keeps its first
  position and takes the last value. \<open>room\<close> is the number of containers that may be
  open at once; opening one more raises \<open>RecursionError\<close>. A literal that is too long
  raises \<open>ValueError\<close> where a value is due, and any token that may not come next is a
  syntax error.
\<close>

datatype frame = FArr "json list" | FObj "(string \<times> json) list" "string option"

datatype pmode = MValue | MValueOrEnd | MKeyOrEnd | MKey | MColon | MSep

datatype pstate = Parsing pmode "frame list" | Finished json

fun deliver :: "json \<Rightarrow> frame list \<Rightarrow> pyexc + pstate" where
  "deliver v [] = Inr (Finished v)"
| "deliver v (FArr vs # st) = Inr (Parsing MSep (FArr (vs @ [v]) # st))"
| "deliver v (FObj kvs (Some k) # st) = Inr (Parsing MSep (FObj (dict_set k v kvs) None # st))"
| "deliver v (FObj kvs None # st) = Inl JSONDecodeError"

definition open_container :: "nat \<Rightarrow> pmode \<Rightarrow> frame \<Rightarrow> frame list \<Rightarrow> pyexc + pstate" where
  "open_container room m f st =
     (if length st < room then Inr (Parsing m (f # st)) else Inl RecursionError)"

definition start_value :: "nat \<Rightarrow> frame list \<Rightarrow> token \<Rightarrow> pyexc + pstate" where
  "start_value room st t =
     (case t of
        TLit v \<Rightarrow> deliver v st
      | TBig \<Rightarrow> Inl ValueError
      | TLBrack \<Rightarrow> open_container room MValueOrEnd (FArr []) st
      | TLBrace \<Rightarrow> open_container room MKeyOrEnd (FObj [] None) st
      | _ \<Rightarrow> Inl JSONDecodeError)"

definition start_key :: "frame list \<Rightarrow> token \<Rightarrow> pyexc + pstate" where
  "start_key st t =
     (case t of
        TLit (JStr k) \<Rightarrow>
          (case st of
             FObj kvs None # st' \<Rightarrow> Inr (Parsing MColon (FObj kvs (Some k) # st'))
           | _ \<Rightarrow> Inl JSONDecodeError)
      | _ \<Rightarrow> Inl JSONDecodeError)"

definition close_arr :: "frame list \<Rightarrow> pyexc + pstate" where
  "close_arr st = (case st of FArr vs # st' \<Rightarrow> deliver (JArr vs) st' | _ \<Rightarrow> Inl JSONDecodeError)"

definition close_obj :: "frame list \<Rightarrow> pyexc + pstate" where
  "close_obj st =
     (case st of FObj kvs None # st' \<Rightarrow> deliver (JObj kvs) st' | _ \<Rightarrow> Inl JSONDecodeError)"

fun pstep :: "nat \<Rightarrow> pstate \<Rightarrow> token \<Rightarrow> pyexc + pstate" where
  "pstep room (Finished v) t = Inl JSONDecodeError"
| "pstep room (Parsing m st) t =
     (case m of
        MValue \<Rightarrow> start_value room st t
      | MValueOrEnd \<Rightarrow> (case t of TRBrack \<Rightarrow> close_arr st | _ \<Rightarrow> start_value room st t)
      | MKeyOrEnd \<Rightarrow> (case t of TRBrace \<Rightarrow> close_obj st | _ \<Rightarrow> start_key st t)
      | MKey \<Rightarrow> start_key st t
      | MColon \<Rightarrow> (case t of TColon \<Rightarrow> Inr (Parsing MValue st) | _ \<Rightarrow> Inl JSONDecodeError)
      | MSep \<Rightarrow>
          (case t of
             TComma \<Rightarrow>
               (case st of
                  FArr vs # st' \<Rightarrow> Inr (Parsing MValue st)
                | FObj kvs k # st' \<Rightarrow> Inr (Parsing MKey st)
                | [] \<Rightarrow> Inl JSONDecodeError)
           | TRBrack \<Rightarrow> close_arr st
           | TRBrace \<Rightarrow> close_obj st
           | _ \<Rightarrow> Inl JSONDecodeError))"

fun parse_tokens :: "nat \<Rightarrow> pstate \<Rightarrow> token list \<Rightarrow> pyexc + json" where
  "parse_tokens room st [] = (case st of Finished v \<Rightarrow> Inr v | _ \<Rightarrow> Inl JSONDecodeError)"
| "parse_tokens room st (t # ts) =
     (case pstep room st t of Inl e \<Rightarrow> Inl e | Inr st' \<Rightarrow> parse_tokens room st' ts)"

definition json_loads :: "nat \<Rightarrow> string \<Rightarrow> pyexc + json" where
  "json_loads room s = parse_tokens room (Parsing MValue []) (tokens s)"

subsection \<open>\<open>re.search\<close> for the three patterns of the pipeline\<close>

text \<open>
  \<open>re.search\<close> returns the leftmost match, and \<open>.*\<close> under \<open>re.DOTALL\<close> is greedy
  over every character, line breaks included. So \<open>\{.*\}\<close> and \<open>\[.*\]\<close> match from
  the first opening character to the last closing character after it, and there is no
  match when no closing character follows the first opening one.
\<close>

definition upto_last :: "char \<Rightarrow> string \<Rightarrow> string" where
  "upto_last c s = rev (dropWhile (\<lambda>x. x \<noteq> c) (rev s))"

definition search_greedy :: "char \<Rightarrow> char \<Rightarrow> string \<Rightarrow> string option" where
  "search_greedy opn cls s =
     (case dropWhile (\<lambda>x. x \<noteq> opn) s of
        [] \<Rightarrow> None
      | c # body \<Rightarrow> if cls \<in> set body then Some (c # upto_last cls body) else None)"

text \<open>\<open>\d+\<close>: the first maximal run of decimal digits, as the code points it holds.\<close>

definition search_digits :: "string \<Rightarrow> int list option" where
  "search_digits s =
     (case takeWhile is_decimal (dropWhile (\<lambda>x. \<not> is_decimal x) (code_points s)) of
        [] \<Rightarrow> None
      | ds \<Rightarrow> Some ds)"

subsection \<open>\<open>int\<close>, subscripting and \<open>str\<close>\<close>

text \<open>
  \<open>int\<close> of a string ignores surrounding whitespace (of the ASCII characters the six
  that C knows, of the others every Unicode space), takes a sign and then decimal digits
  of any script, which single underscores may group. More digits than
  \<open>int_max_str_digits\<close> are refused with \<open>ValueError\<close>, like every other text that is
  not a numeral.
\<close>

definition is_int_space :: "int \<Rightarrow> bool" where
  "is_int_space cp =
     (cp \<in> set [9, 10, 11, 12, 13, 32, 133, 160, 5760, 8192, 8193, 8194, 8195, 8196, 8197,
                8198, 8199, 8200, 8201, 8202, 8232, 8233, 8239, 8287, 12288])"

definition int_strip :: "int list \<Rightarrow> int list" where
  "int_strip s = rev (dropWhile is_int_space (rev (dropWhile is_int_space s)))"

fun int_body_ok :: "int list \<Rightarrow> bool" where
  "int_body_ok [] = False"
| "int_body_ok [c] = is_decimal c"
| "int_body_ok (c # d # r) =
     (is_decimal c \<and> (if d = 95 then int_body_ok r else int_body_ok (d # r)))"

definition int_of_code_points :: "int list \<Rightarrow> pyexc + int" where
  "int_of_code_points s =
     (let t = int_strip s;
          (neg, body) =
            (case t of
               [] \<Rightarrow> (False, t)
             | c # r \<Rightarrow>
                 if c = 45 then (True, r)
                 else if c = 43 then (False, r) else (False, t));
          ds = filter (\<lambda>c. c \<noteq> 95) body
      in if int_body_ok body \<and> int (length ds) \<le> int_max_str_digits
         then Inr (if neg then - decimal_number ds else decimal_number ds)
         else Inl ValueError)"

definition int_of_str :: "string \<Rightarrow> pyexc + int" where
  "int_of_str s = int_of_code_points (code_points s)"

definition trunc_rat :: "rat \<Rightarrow> int" where
  "trunc_rat r = (if 0 \<le> r then \<lfloor>r\<rfloor> else \<lceil>r\<rceil>)"

fun py_int :: "json \<Rightarrow> pyexc + int" where
  "py_int (JInt n) = Inr n"
| "py_int (JBool b) = Inr (if b then 1 else 0)"
| "py_int (JFloat (Finite r)) = Inr (trunc_rat r)"
| "py_int (JFloat NaN) = Inl ValueError"
| "py_int (JFloat PosInf) = Inl OverflowError"
| "py_int (JFloat NegInf) = Inl OverflowError"
| "py_int (JStr s) = int_of_str s"
| "py_int JNull = Inl TypeError"
| "py_int (JArr xs) = Inl TypeError"
| "py_int (JObj kvs) = Inl TypeError"

datatype pykey = KStr string | KInt int

definition py_index :: "'a list \<Rightarrow> int \<Rightarrow> pyexc + 'a" where
  "py_index xs i =
     (if 0 \<le> i \<and> i < int (length xs) then Inr (xs ! nat i)
      else if i < 0 \<and> - i \<le> int (length xs) then Inr (xs ! nat (int (length xs) + i))
      else Inl IndexError)"

fun py_getitem :: "json \<Rightarrow> pykey \<Rightarrow> pyexc + json" where
  "py_getitem (JObj kvs) (KStr k) = (case map_of kvs k of None \<Rightarrow> Inl KeyError | Some v \<Rightarrow> Inr v)"
| "py_getitem (JObj kvs) (KInt i) = Inl KeyError"
| "py_getitem (JArr xs) (KInt i) = py_index xs i"
| "py_getitem (JArr xs) (KStr k) = Inl TypeError"
| "py_getitem (JStr s) (KInt i) = map_sum id (\<lambda>cp. JStr (utf8 cp)) (py_index (code_points s) i)"
| "py_getitem (JStr s) (KStr k) = Inl TypeError"
| "py_getitem _ _ = Inl TypeError"

definition digit_char :: "nat \<Rightarrow> char" where
  "digit_char d = char_of (48 + d)"

fun str_nat :: "nat \<Rightarrow> string" where
  "str_nat n = (if n < 10 then [digit_char n] else str_nat (n div 10) @ [digit_char (n mod 10)])"

declare str_nat.simps [simp del]

definition str_int :: "int \<Rightarrow> string" where
  "str_int i = (if i < 0 then CHR ''-'' # str_nat (nat (- i)) else str_nat (nat i))"

text \<open>\<open>sep.join(parts)\<close>.\<close>

fun join :: "string \<Rightarrow> string list \<Rightarrow> string" where
  "join sep [] = []"
| "join sep [x] = x"
| "join sep (x # y # ys) = x @ sep @ join sep (y # ys)"

subsection \<open>The completion endpoint\<close>

text \<open>
  One \<open>requests.post\<close> either raises (no connection, timeout) or returns a status code
  and a body. The endpoint is outside the repository: a function from the number of the
  call and the request to what comes back.
\<close>

datatype http_result = NoReply | Reply nat string

record completion_request =
  prompt :: string
  temperature :: rat
  max_tokens :: nat
  timeout :: nat

type_synonym endpoint = "nat \<Rightarrow> completion_request \<Rightarrow> http_result"

text \<open>
  \<open>requests.post(...)\<close>, \<open>response.raise_for_status()\<close> and
  \<open>response.json()['choices'][0]['message']['content']\<close>, the three statements with
  which both pipeline functions read a completion. \<open>raise_for_status\<close> raises for a
  status from 400 to 599 and for no other. \<open>room\<close> is the room of the decoder.
\<close>

definition bind_exc :: "pyexc + 'a \<Rightarrow> ('a \<Rightarrow> pyexc + 'b) \<Rightarrow> pyexc + 'b" where
  "bind_exc r f = (case r of Inl e \<Rightarrow> Inl e | Inr x \<Rightarrow> f x)"

definition completion_content :: "nat \<Rightarrow> http_result \<Rightarrow> pyexc + json" where
  "completion_content room r =
     (case r of
        NoReply \<Rightarrow> Inl RequestException
      | Reply code body \<Rightarrow>
          if 400 \<le> code \<and> code < 600 then Inl HTTPError
          else
            bind_exc (json_loads room body) (\<lambda>j.
            bind_exc (py_getitem j (KStr ''choices'')) (\<lambda>choices.
            bind_exc (py_getitem choices (KInt 0)) (\<lambda>choice.
            bind_exc (py_getitem choice (KStr ''message'')) (\<lambda>message.
            py_getitem message (KStr ''content''))))))"

section \<open>The data model (\<open>models.py\<close>)\<close>

text \<open>
  A user identity is the text of a UUID in its canonical form: 36 characters, lower-case
  hexadecimal digits and four hyphens. Primary keys are numbers (the store draws a new
  one for each row), timestamps count seconds.
\<close>

type_synonym uuid = string

definition uuid_shape :: string where
  "uuid_shape = ''xxxxxxxx-xxxx-xxxx-xxxx-xxxxxxxxxxxx''"

definition is_uuid :: "string \<Rightarrow> bool" where
  "is_uuid u =
     (length u = 36 \<and>
      list_all (\<lambda>cp. if snd cp = CHR ''-'' then fst cp = CHR ''-''
                       else fst cp \<in> set ''0123456789abcdef'')
        (zip u uuid_shape))"

record task =
  task_id :: nat
  task_user_id :: uuid
  title :: string
  description :: "string option"
  category_id :: "nat option"
  priority_score :: "int option"
  priority_label :: "string option"
  deadline :: "string option"
  status :: string
  task_created_at :: nat
  task_updated_at :: nat

record category =
  cat_id :: nat
  cat_user_id :: uuid
  cat_name :: string
  usage_count :: int
  cat_created_at :: nat

record context_entry =
  entry_id :: nat
  entry_user_id :: uuid
  content :: string
  source_type :: string
  insights :: json
  entry_created_at :: nat

text \<open>
  The state of the application: the three tables in the order the store holds their
  rows, the shared cache (each entry is a text with the time at which it expires), the
  next primary key, and two counters: the statements issued against the store and the
  calls made to the completion endpoint.
\<close>

record app_state =
  tasks :: "task list"
  categories :: "category list"
  context_entries :: "context_entry list"
  cache :: "string \<rightharpoonup> (string \<times> nat)"
  next_id :: nat
  queries :: nat
  completions :: nat

datatype pyval = PNone | PStr string | PInt int

text \<open>
  What a request finds around it: the completion endpoint, the clock, the date line that
  \<open>strftime\<close> prints for it, the text \<open>repr\<close> gives a finite float, whether the
  cache backend has \<open>delete_pattern\<close>, the conversion that the framework's serializer
  field of a given name applies to an input value (\<open>None\<close> when it rejects the value),
  the user that the identity provider knows for a bearer token, and the room of the
  decoder. The recursion limit of the interpreter is 1000 by default and nothing in the
  repository changes it; the frames of the server and of the framework take a part of it
  that the repository does not fix. The model takes it that room for 64 nested
  containers is always left; how much more there is when the body of a completion or
  the span found in it is decoded, the environment says for each completion call.
\<close>

datatype decode_site = Body | Span

record env =
  endpoint_of :: endpoint
  now :: nat
  today :: string
  float_repr :: "rat \<Rightarrow> string"
  has_delete_pattern :: bool
  field_validator :: "string \<Rightarrow> json \<Rightarrow> pyval option"
  supabase_user :: "string \<Rightarrow> uuid option"
  spare_depth :: "nat \<Rightarrow> decode_site \<Rightarrow> nat"

definition nesting_limit :: "env \<Rightarrow> nat \<Rightarrow> decode_site \<Rightarrow> nat" where
  "nesting_limit ev call site = 64 + spare_depth ev call site"

section \<open>Priority scoring (\<open>serializers.py\<close>)\<close>

subsection \<open>Validated data\<close>

text \<open>
  \<open>validated_data\<close> is a dictionary from field names to validated values: a string
  (a date-time stands as its text), a number or \<open>None\<close>.
\<close>

type_synonym validated_data = "string \<rightharpoonup> pyval"

definition dict_get :: "validated_data \<Rightarrow> string \<Rightarrow> pyval \<Rightarrow> pyval" where
  "dict_get d k dflt = (case d k of None \<Rightarrow> dflt | Some v \<Rightarrow> v)"

definition py_str :: "pyval \<Rightarrow> string" where
  "py_str v = (case v of PNone \<Rightarrow> ''None'' | PStr s \<Rightarrow> s | PInt n \<Rightarrow> str_int n)"

definition str_opt :: "string option \<Rightarrow> string" where
  "str_opt v = (case v of None \<Rightarrow> ''None'' | Some s \<Rightarrow> s)"

definition str_int_opt :: "int option \<Rightarrow> string" where
  "str_int_opt v = (case v of None \<Rightarrow> ''None'' | Some n \<Rightarrow> str_int n)"

subsection \<open>The context section of the scoring prompt\<close>

text \<open>
  \<open>Task.objects.filter(user_id=user_id, status__in=['Pending', 'In Progress'])
  .order_by('-priority_score')[:10]\<close>. The store orders a descending column with its
  missing values first; rows with equal scores keep the order of the table.
\<close>

definition is_active :: "task \<Rightarrow> bool" where
  "is_active t = (status t \<in> set [''Pending'', ''In Progress''])"

definition score_desc_key :: "task \<Rightarrow> int option" where
  "score_desc_key t = map_option uminus (priority_score t)"

definition existing_tasks_for_scoring :: "task list \<Rightarrow> uuid \<Rightarrow> task list" where
  "existing_tasks_for_scoring ts u =
     take 10 (sort_key score_desc_key (filter (\<lambda>t. task_user_id t = u \<and> is_active t) ts))"

definition task_line :: "task \<Rightarrow> string" where
  \<open>task_line t =
     ''- Title: "'' @ title t @ ''", Priority: '' @ str_opt (priority_label t) @
     '', Current Score: '' @ str_int_opt (priority_score t)\<close>

definition existing_tasks_str :: "task list \<Rightarrow> string" where
  "existing_tasks_str existing_tasks =
     (if existing_tasks = [] then ''The user has no other active tasks.''
      else join [CHR 0x0A] (map task_line existing_tasks))"

subsection \<open>The prompt and the request\<close>

definition scoring_prompt :: "string \<Rightarrow> validated_data \<Rightarrow> string" where
  \<open>scoring_prompt existing task_data = join [CHR 0x0A]
     [[],
      ''        Analyze the '' @ [CHR 0x60] @ ''new_task'' @ [CHR 0x60] @
        '' in the context of the '' @ [CHR 0x60] @ ''existing_tasks'' @ [CHR 0x60] @ ''.'',
      [],
      ''        **Existing Tasks:**'',
      ''        '' @ existing,
      [],
      ''        **New Task:**'',
      ''        - Title: '' @ py_str (dict_get task_data ''title'' PNone),
      ''        - Description: '' @
        py_str (dict_get task_data ''description'' (PStr ''No description.'')),
      ''        - User-Assigned Priority: '' @
        py_str (dict_get task_data ''priority_label'' (PStr ''Not set.'')),
      ''        - Deadline: '' @ py_str (dict_get task_data ''deadline'' (PStr ''No deadline.'')),
      [],
      ''        Based on this analysis, provide a numerical priority score from 1 to 100 for the new task.'',
      ''        Your response MUST be a JSON object containing a single key "score". Do not include any other text, explanation, or markdown.'',
      [],
      ''        Example response:'',
      ''        {"score": 92}'',
      ''        '',
      ''        Ensure that the response is strictly a JSON object with no additional text.'',
      ''        If you cannot determine an appropriate score based on the provided information, respond with a score of 50 for medium priority tasks, 85 for high priority tasks, and 20 for low priority tasks.'',
      ''        '']\<close>

definition scoring_request :: "string \<Rightarrow> completion_request" where
  "scoring_request p = \<lparr>prompt = p, temperature = 1 / 10, max_tokens = 256, timeout = 20\<rparr>"

subsection \<open>Reading the score out of the completion\<close>

text \<open>
  The inner \<open>try\<close> of \<open>_calculate_priority_score\<close>: the span of \<open>\{.*\}\<close> is
  decoded, its \<open>score\<close> entry converted by \<open>int\<close>. The content of the completion is
  whatever JSON value the response carries; \<open>re.search\<close> raises \<open>TypeError\<close> on
  anything but a string. \<open>room\<close> is the room of the decoder.
\<close>

definition extract_object_score :: "nat \<Rightarrow> json \<Rightarrow> pyexc + int" where
  "extract_object_score room content_str =
     (case content_str of
        JStr s \<Rightarrow>
          (case search_greedy (CHR ''{'') (CHR ''}'') s of
             None \<Rightarrow> Inl ValueError
           | Some matched \<Rightarrow>
               bind_exc (json_loads room matched) (\<lambda>score_data.
               bind_exc (py_getitem score_data (KStr ''score'')) py_int))
      | _ \<Rightarrow> Inl TypeError)"

text \<open>The handler of the inner \<open>try\<close>: \<open>int\<close> of the first run of digits, or
  \<open>ValueError\<close> when there is none.\<close>

definition extract_digit_score :: "json \<Rightarrow> pyexc + int" where
  "extract_digit_score content_str =
     (case content_str of
        JStr s \<Rightarrow>
          (case search_digits s of
             Some ds \<Rightarrow> int_of_code_points ds
           | None \<Rightarrow> Inl ValueError)
      | _ \<Rightarrow> Inl TypeError)"

definition extract_score :: "nat \<Rightarrow> json \<Rightarrow> pyexc + int" where
  "extract_score room content_str =
     (case extract_object_score room content_str of
        Inr n \<Rightarrow> Inr n
      | Inl e \<Rightarrow>
          if except_matches [JSONDecodeError, KeyError, TypeError, ValueError] e
          then extract_digit_score content_str
          else Inl e)"

subsection \<open>\<open>_calculate_priority_score\<close>\<close>

definition label_fallback :: "validated_data \<Rightarrow> int" where
  "label_fallback task_data =
     (case dict_get task_data ''priority_label'' PNone of
        PStr l \<Rightarrow>
          if l = ''High'' then 85 else if l = ''Medium'' then 50
          else if l = ''Low'' then 15 else 50
      | _ \<Rightarrow> 50)"

text \<open>The outer \<open>try\<close>: what the completion gives, or the fallback of the label when
  the exception is one the handler names.\<close>

definition score_of_reply ::
    "nat \<Rightarrow> nat \<Rightarrow> http_result \<Rightarrow> validated_data \<Rightarrow> pyexc + int" where
  "score_of_reply body_room span_room reply task_data =
     (case bind_exc (completion_content body_room reply) (extract_score span_room) of
        Inr n \<Rightarrow> Inr n
      | Inl e \<Rightarrow>
          if except_matches [RequestException, KeyError, ValueError, IndexError] e
          then Inr (label_fallback task_data)
          else Inl e)"

text \<open>The answer of the endpoint to the request that the routine sends: the prompt is
  built from the ten tasks fetched for the user and from the candidate.\<close>

definition scoring_reply :: "env \<Rightarrow> app_state \<Rightarrow> uuid \<Rightarrow> validated_data \<Rightarrow> http_result" where
  "scoring_reply ev st user_id task_data =
     (let existing_tasks = existing_tasks_for_scoring (tasks st) user_id;
          p = scoring_prompt (existing_tasks_str existing_tasks) task_data
      in endpoint_of ev (completions st) (scoring_request p))"

definition calculate_priority_score ::
    "env \<Rightarrow> app_state \<Rightarrow> uuid \<Rightarrow> validated_data \<Rightarrow> (pyexc + int) \<times> app_state" where
  "calculate_priority_score ev st user_id task_data =
     (score_of_reply (nesting_limit ev (completions st) Body)
        (nesting_limit ev (completions st) Span)
        (scoring_reply ev st user_id task_data) task_data,
      st\<lparr>queries := queries st + 1, completions := completions st + 1\<rparr>)"

section \<open>\<open>json.dumps\<close>\<close>

text \<open>
  The encoder with its defaults (\<open>ensure_ascii\<close>, \<open>allow_nan\<close>) and an indent of
  two spaces. Every code point outside the printable ASCII range is written as an escape
  of four hexadecimal digits, one beyond \<open>U+FFFF\<close> as its two surrogates. The digits
  that \<open>repr\<close> prints for a finite float are a parameter.
\<close>

definition hex_digit :: "int \<Rightarrow> char" where
  "hex_digit n = ''0123456789abcdef'' ! nat (n mod 16)"

definition u_escape :: "int \<Rightarrow> string" where
  "u_escape n =
     [CHR 0x5C, CHR ''u'', hex_digit (n div 4096), hex_digit (n div 256), hex_digit (n div 16),
      hex_digit n]"

definition escape_char :: "int \<Rightarrow> string" where
  "escape_char n =
     (if n = 0x22 then [CHR 0x5C, CHR 0x22]
      else if n = 0x5C then [CHR 0x5C, CHR 0x5C]
      else if n = 0x0A then [CHR 0x5C, CHR ''n'']
      else if n = 0x0D then [CHR 0x5C, CHR ''r'']
      else if n = 0x09 then [CHR 0x5C, CHR ''t'']
      else if n = 0x08 then [CHR 0x5C, CHR ''b'']
      else if n = 0x0C then [CHR 0x5C, CHR ''f'']
      else if 32 \<le> n \<and> n \<le> 126 then [char_of n]
      else if n < 0x10000 then u_escape n
      else u_escape (0xD800 + (n - 0x10000) div 1024) @ u_escape (0xDC00 + (n - 0x10000) mod 1024))"

definition json_quote :: "string \<Rightarrow> string" where
  "json_quote s = CHR 0x22 # concat (map escape_char (code_points s)) @ [CHR 0x22]"

definition dumps_float :: "(rat \<Rightarrow> string) \<Rightarrow> pyfloat \<Rightarrow> string" where
  "dumps_float frepr f =
     (case f of
        Finite r \<Rightarrow> frepr r
      | PosInf \<Rightarrow> ''Infinity''
      | NegInf \<Rightarrow> ''-Infinity''
      | NaN \<Rightarrow> ''NaN'')"

definition newline_indent :: "nat \<Rightarrow> string" where
  "newline_indent level = CHR 0x0A # replicate (2 * level) (CHR '' '')"

definition bracketed :: "char \<Rightarrow> char \<Rightarrow> nat \<Rightarrow> string list \<Rightarrow> string" where
  "bracketed opn cls level items =
     (if items = [] then [opn, cls]
      else opn # newline_indent (Suc level) @
           join (CHR '','' # newline_indent (Suc level)) items @
           newline_indent level @ [cls])"

fun json_dumps :: "(rat \<Rightarrow> string) \<Rightarrow> nat \<Rightarrow> json \<Rightarrow> string" where
  "json_dumps frepr level JNull = ''null''"
| "json_dumps frepr level (JBool b) = (if b then ''true'' else ''false'')"
| "json_dumps frepr level (JInt n) = str_int n"
| "json_dumps frepr level (JFloat f) = dumps_float frepr f"
| "json_dumps frepr level (JStr s) = json_quote s"
| "json_dumps frepr level (JArr xs) =
     bracketed (CHR ''['') (CHR '']'') level (map (json_dumps frepr (Suc level)) xs)"
| "json_dumps frepr level (JObj kvs) =
     bracketed (CHR ''{'') (CHR ''}'') level
       (map (\<lambda>kv. json_quote (fst kv) @ '': '' @ json_dumps frepr (Suc level) (snd kv)) kvs)"

section \<open>The extraction as the specification words it\<close>

text \<open>
  The specification describes the span as non-greedy: from the first opening character
  to the first closing character after it. The two definitions below follow those words;
  they are compared with \<open>search_greedy\<close> and \<open>extract_score\<close>, which follow the code.
\<close>

definition search_lazy :: "char \<Rightarrow> char \<Rightarrow> string \<Rightarrow> string option" where
  "search_lazy opn cls s =
     (case dropWhile (\<lambda>x. x \<noteq> opn) s of
        [] \<Rightarrow> None
      | c # body \<Rightarrow>
          if cls \<in> set body then Some (c # takeWhile (\<lambda>x. x \<noteq> cls) body @ [cls]) else None)"

definition spec_extract_score :: "nat \<Rightarrow> string \<Rightarrow> pyexc + int" where
  "spec_extract_score room raw_text =
     (case (case search_lazy (CHR ''{'') (CHR ''}'') raw_text of
              None \<Rightarrow> Inl ValueError
            | Some matched \<Rightarrow>
                bind_exc (json_loads room matched) (\<lambda>d.
                bind_exc (py_getitem d (KStr ''score'')) py_int)) of
        Inr n \<Rightarrow> Inr n
      | Inl e \<Rightarrow>
          (case search_digits raw_text of
             Some ds \<Rightarrow> Inr (decimal_number ds)
           | None \<Rightarrow> Inl ValueError))"

section \<open>Concrete surroundings for the examples\<close>

text \<open>A response body that carries one completion with the given text as its content, an
  environment whose endpoint answers every request with status 200 and a given body,
  whose serializer fields take strings and \<open>null\<close> as they are and whose decoder has
  room for 64 containers, and the state with empty tables and an empty cache.\<close>

definition chat_body :: "string \<Rightarrow> string" where
  \<open>chat_body raw = ''{"choices": [{"message": {"content": '' @ json_quote raw @ ''}}]}''\<close>

definition plain_field :: "string \<Rightarrow> json \<Rightarrow> pyval option" where
  "plain_field name v =
     (case v of JStr s \<Rightarrow> Some (PStr s) | JNull \<Rightarrow> Some PNone | _ \<Rightarrow> None)"

definition answering :: "string \<Rightarrow> env" where
  "answering body =
     \<lparr>endpoint_of = (\<lambda>n r. Reply 200 body), now = 0, today = ''Friday, 04/07/2025'',
      float_repr = (\<lambda>r. ''0.0''), has_delete_pattern = False,
      field_validator = plain_field, supabase_user = (\<lambda>token. None),
      spare_depth = (\<lambda>call site. 0)\<rparr>"

definition empty_state :: app_state where
  "empty_state =
     \<lparr>tasks = [], categories = [], context_entries = [], cache = Map.empty,
      next_id = 1, queries = 0, completions = 0\<rparr>"

definition alice :: uuid where
  "alice = ''00000000-0000-4000-8000-00000000000a''"

definition bob :: uuid where
  "bob = ''00000000-0000-4000-8000-00000000000b''"

section \<open>The scoring context as the specification words it\<close>

text \<open>
  The specification describes the context as the ten most recent active tasks of the
  user, ordered by descending score. The definition below follows those words; it is
  compared with \<open>existing_tasks_for_scoring\<close>, which follows the code.
  \<open>ranks_before x y\<close> says that the store may list \<open>x\<close> before \<open>y\<close> when it
  orders by descending score: a missing score comes first.
\<close>

definition newest_first_key :: "task \<Rightarrow> int" where
  "newest_first_key t = - int (task_created_at t)"

definition spec_scoring_context :: "task list \<Rightarrow> uuid \<Rightarrow> task list" where
  "spec_scoring_context ts u =
     sort_key score_desc_key
       (take 10 (sort_key newest_first_key
                   (filter (\<lambda>t. task_user_id t = u \<and> is_active t) ts)))"

definition ranks_before :: "task \<Rightarrow> task \<Rightarrow> bool" where
  "ranks_before x y =
     (case priority_score x of
        None \<Rightarrow> True
      | Some a \<Rightarrow> (case priority_score y of None \<Rightarrow> False | Some b \<Rightarrow> b \<le> a))"

text \<open>Eleven pending tasks of one user: the task created at time \<open>k\<close> has the score
  \<open>12 - k\<close>, so the newest task has the lowest score.\<close>

definition pending_task :: "nat \<Rightarrow> task" where
  "pending_task k =
     \<lparr>task_id = k, task_user_id = alice, title = ''task'', description = None,
      category_id = None, priority_score = Some (12 - int k), priority_label = None,
      deadline = None, status = ''Pending'', task_created_at = k, task_updated_at = k\<rparr>"

definition eleven_tasks :: "task list" where
  "eleven_tasks = map pending_task [1, 2, 3, 4, 5, 6, 7, 8, 9, 10, 11]"

text \<open>Ten pending tasks of the same user that have no score, after one that has.\<close>

definition one_scored_of_eleven :: "task list" where
  "one_scored_of_eleven =
     pending_task 1 # map (\<lambda>k. (pending_task k)\<lparr>priority_score := None\<rparr>)
                        [2, 3, 4, 5, 6, 7, 8, 9, 10, 11]"

section \<open>The task-array extraction as the specification words it\<close>

text \<open>The first non-greedy span of brackets, decoded as a JSON array; the empty sequence
  when the text has no such span.\<close>

definition spec_extract_task_array :: "nat \<Rightarrow> string \<Rightarrow> pyexc + json list" where
  "spec_extract_task_array room raw_text =
     (case search_lazy (CHR ''['') (CHR '']'') raw_text of
        None \<Rightarrow> Inr []
      | Some matched \<Rightarrow>
          (case json_loads room matched of
             Inr (JArr drafts) \<Rightarrow> Inr drafts
           | _ \<Rightarrow> Inl ValueError))"

section \<open>The cache and its invalidation (\<open>signals.py\<close>)\<close>

subsection \<open>The cache\<close>

text \<open>
  \<open>cache.get\<close>, \<open>cache.set\<close> with a timeout in seconds, \<open>cache.delete\<close> and, where
  the backend has it, \<open>delete_pattern\<close>. An entry is gone once the clock has reached
  its expiry. A pattern is matched as a glob: \<open>*\<close> stands for any text, \<open>?\<close> for one
  character, every other character for itself (the patterns of this application are
  built from a UUID and fixed words, and end in \<open>*\<close>).
\<close>

definition cache_get :: "env \<Rightarrow> app_state \<Rightarrow> string \<Rightarrow> string option" where
  "cache_get ev st key =
     (case cache st key of
        None \<Rightarrow> None
      | Some (v, expires) \<Rightarrow> if now ev < expires then Some v else None)"

definition cache_set :: "env \<Rightarrow> string \<Rightarrow> string \<Rightarrow> nat \<Rightarrow> app_state \<Rightarrow> app_state" where
  "cache_set ev key v ttl st = st\<lparr>cache := (cache st)(key \<mapsto> (v, now ev + ttl))\<rparr>"

definition cache_delete :: "string \<Rightarrow> app_state \<Rightarrow> app_state" where
  "cache_delete key st = st\<lparr>cache := (cache st)(key := None)\<rparr>"

fun glob_match :: "string \<Rightarrow> string \<Rightarrow> bool" where
  "glob_match [] [] = True"
| "glob_match [] (c # cs) = False"
| "glob_match (p # ps) [] = (p = CHR ''*'' \<and> glob_match ps [])"
| "glob_match (p # ps) (c # cs) =
     (if p = CHR ''*'' then glob_match ps (c # cs) \<or> glob_match (p # ps) cs
      else (p = CHR ''?'' \<or> p = c) \<and> glob_match ps cs)"

definition cache_delete_pattern :: "string \<Rightarrow> app_state \<Rightarrow> app_state" where
  "cache_delete_pattern pat st =
     st\<lparr>cache := (\<lambda>k. if glob_match pat k then None else cache st k)\<rparr>"

subsection \<open>\<open>clear_task_caches\<close>, \<open>clear_context_caches\<close> and the four receivers\<close>

definition tasks_cache_key :: "uuid \<Rightarrow> string" where
  "tasks_cache_key u = ''user_'' @ u @ ''_tasks_for_processing''"

definition contexts_cache_key :: "uuid \<Rightarrow> string" where
  "contexts_cache_key u = ''user_'' @ u @ ''_contexts_for_processing''"

definition clear_task_caches :: "env \<Rightarrow> uuid option \<Rightarrow> app_state \<Rightarrow> app_state" where
  "clear_task_caches ev user_id st =
     (case user_id of
        None \<Rightarrow> st
      | Some u \<Rightarrow>
          (let st1 = cache_delete (tasks_cache_key u) st;
               list_pattern = ''user_'' @ u @ ''_task_list_*''
           in if has_delete_pattern ev then cache_delete_pattern list_pattern st1 else st1))"

definition clear_context_caches :: "env \<Rightarrow> uuid option \<Rightarrow> app_state \<Rightarrow> app_state" where
  "clear_context_caches ev user_id st =
     (case user_id of
        None \<Rightarrow> st
      | Some u \<Rightarrow>
          (let st1 = cache_delete (contexts_cache_key u) st;
               list_pattern = ''user_'' @ u @ ''_context_list_*''
           in if has_delete_pattern ev then cache_delete_pattern list_pattern st1 else st1))"

definition clear_task_cache_on_save :: "env \<Rightarrow> task \<Rightarrow> app_state \<Rightarrow> app_state" where
  "clear_task_cache_on_save ev instance st = clear_task_caches ev (Some (task_user_id instance)) st"

definition clear_task_cache_on_delete :: "env \<Rightarrow> task \<Rightarrow> app_state \<Rightarrow> app_state" where
  "clear_task_cache_on_delete ev instance st = clear_task_caches ev (Some (task_user_id instance)) st"

definition clear_context_cache_on_save :: "env \<Rightarrow> context_entry \<Rightarrow> app_state \<Rightarrow> app_state" where
  "clear_context_cache_on_save ev instance st =
     clear_context_caches ev (Some (entry_user_id instance)) st"

definition clear_context_cache_on_delete :: "env \<Rightarrow> context_entry \<Rightarrow> app_state \<Rightarrow> app_state" where
  "clear_context_cache_on_delete ev instance st =
     clear_context_caches ev (Some (entry_user_id instance)) st"

subsection \<open>Saving and deleting rows\<close>

text \<open>
  \<open>instance.save()\<close> writes the row (a new row goes to the end of the table, an existing
  one is replaced by primary key; \<open>updated_at\<close> is set by \<open>auto_now\<close>) and sends
  \<open>post_save\<close>; \<open>instance.delete()\<close> removes the row and sends \<open>post_delete\<close>.
\<close>

definition put_row :: "('a \<Rightarrow> nat) \<Rightarrow> 'a \<Rightarrow> 'a list \<Rightarrow> 'a list" where
  "put_row pk row rows =
     (if list_ex (\<lambda>r. pk r = pk row) rows
      then map (\<lambda>r. if pk r = pk row then row else r) rows
      else rows @ [row])"

definition save_task :: "env \<Rightarrow> task \<Rightarrow> app_state \<Rightarrow> app_state" where
  "save_task ev instance st =
     (let row = instance\<lparr>task_updated_at := now ev\<rparr>;
          st1 = st\<lparr>tasks := put_row task_id row (tasks st), queries := queries st + 1\<rparr>
      in clear_task_cache_on_save ev row st1)"

definition delete_task :: "env \<Rightarrow> task \<Rightarrow> app_state \<Rightarrow> app_state" where
  "delete_task ev instance st =
     (let st1 = st\<lparr>tasks := filter (\<lambda>r. task_id r \<noteq> task_id instance) (tasks st),
                    queries := queries st + 1\<rparr>
      in clear_task_cache_on_delete ev instance st1)"

definition save_context_entry :: "env \<Rightarrow> context_entry \<Rightarrow> app_state \<Rightarrow> app_state" where
  "save_context_entry ev instance st =
     (let st1 = st\<lparr>context_entries := put_row entry_id instance (context_entries st),
                    queries := queries st + 1\<rparr>
      in clear_context_cache_on_save ev instance st1)"

definition delete_context_entry :: "env \<Rightarrow> context_entry \<Rightarrow> app_state \<Rightarrow> app_state" where
  "delete_context_entry ev instance st =
     (let st1 = st\<lparr>context_entries :=
                      filter (\<lambda>r. entry_id r \<noteq> entry_id instance) (context_entries st),
                    queries := queries st + 1\<rparr>
      in clear_context_cache_on_delete ev instance st1)"

section \<open>\<open>TaskSerializer\<close>: validation, \<open>create\<close> and \<open>update\<close>\<close>

subsection \<open>Validation\<close>

text \<open>
  \<open>Meta.fields\<close> and \<open>Meta.read_only_fields\<close> as the class declares them. The
  framework validates the writable fields only: a field that is read-only is never read
  from the input. The input must be an object; \<open>title\<close> is required unless the update
  is partial; a field that is absent is left out of \<open>validated_data\<close>.
\<close>

definition meta_fields :: "string list" where
  "meta_fields =
     [''id'', ''title'', ''description'', ''category'', ''category_name'',
      ''priority_score'', ''priority_label'', ''deadline'', ''status'',
      ''created_at'', ''updated_at'']"

definition read_only_fields :: "string list" where
  "read_only_fields = [''id'', ''created_at'', ''updated_at'', ''category_name'', ''priority_score'']"

definition writable_fields :: "string list" where
  "writable_fields = filter (\<lambda>f. f \<notin> set read_only_fields) meta_fields"

text \<open>\<open>str.strip\<close> removes the whitespace of \<open>str.isspace\<close> from both ends; what
  is left is given as its code points.\<close>

definition is_py_space :: "int \<Rightarrow> bool" where
  "is_py_space cp =
     (cp \<in> set [9, 10, 11, 12, 13, 28, 29, 30, 31, 32, 133, 160, 5760, 8192, 8193, 8194, 8195,
                8196, 8197, 8198, 8199, 8200, 8201, 8202, 8232, 8233, 8239, 8287, 12288])"

definition py_strip :: "string \<Rightarrow> int list" where
  "py_strip s = rev (dropWhile is_py_space (rev (dropWhile is_py_space (code_points s))))"

definition validate_category :: "pyval \<Rightarrow> pyval" where
  "validate_category v =
     (case v of
        PStr s \<Rightarrow> if s \<noteq> [] \<and> length (py_strip s) = 0 then PNone else v
      | _ \<Rightarrow> v)"

fun validate_fields ::
    "env \<Rightarrow> bool \<Rightarrow> (string \<times> json) list \<Rightarrow> string list \<Rightarrow> validated_data option" where
  "validate_fields ev partial kvs [] = Some Map.empty"
| "validate_fields ev partial kvs (f # fs) =
     (case validate_fields ev partial kvs fs of
        None \<Rightarrow> None
      | Some rest \<Rightarrow>
          (case map_of kvs f of
             None \<Rightarrow> if f = ''title'' \<and> \<not> partial then None else Some rest
           | Some v \<Rightarrow>
               (case field_validator ev f v of
                  None \<Rightarrow> None
                | Some pv \<Rightarrow>
                    Some (rest(f \<mapsto> (if f = ''category'' then validate_category pv else pv))))))"

definition to_internal_value :: "env \<Rightarrow> bool \<Rightarrow> json \<Rightarrow> validated_data option" where
  "to_internal_value ev partial data =
     (case data of
        JObj kvs \<Rightarrow> validate_fields ev partial kvs writable_fields
      | _ \<Rightarrow> None)"

subsection \<open>Categories\<close>

text \<open>
  \<open>Category.objects.get_or_create(user_id=..., name=..., defaults={'usage_count': 0})\<close>
  followed by the count: an existing category is used once more, a new one is used once.
  The result is the primary key of the category.
\<close>

definition use_category :: "env \<Rightarrow> uuid \<Rightarrow> string \<Rightarrow> app_state \<Rightarrow> nat \<times> app_state" where
  "use_category ev user_id category_name st =
     (case find (\<lambda>c. cat_user_id c = user_id \<and> cat_name c = category_name) (categories st) of
        Some c \<Rightarrow>
          (cat_id c,
           st\<lparr>categories :=
                 map (\<lambda>x. if cat_id x = cat_id c then x\<lparr>usage_count := usage_count c + 1\<rparr> else x)
                   (categories st),
               queries := queries st + 2\<rparr>)
      | None \<Rightarrow>
          (next_id st,
           st\<lparr>categories :=
                 categories st @
                   [\<lparr>cat_id = next_id st, cat_user_id = user_id, cat_name = category_name,
                     usage_count = 1, cat_created_at = now ev\<rparr>],
               next_id := next_id st + 1,
               queries := queries st + 3\<rparr>))"

subsection \<open>\<open>create\<close>\<close>

definition str_field :: "validated_data \<Rightarrow> string \<Rightarrow> string option" where
  "str_field d k = (case d k of Some (PStr s) \<Rightarrow> Some s | _ \<Rightarrow> None)"

definition int_field :: "validated_data \<Rightarrow> string \<Rightarrow> int option" where
  "int_field d k = (case d k of Some (PInt n) \<Rightarrow> Some n | _ \<Rightarrow> None)"

text \<open>
  \<open>Task.objects.create(**validated_data)\<close>: the row takes the values of the dictionary,
  the defaults of the model for what is absent, a new primary key and the time of the
  clock, and is saved.
\<close>

definition model_create :: "env \<Rightarrow> validated_data \<Rightarrow> app_state \<Rightarrow> task \<times> app_state" where
  "model_create ev d st =
     (let row =
            \<lparr>task_id = next_id st,
             task_user_id = (case str_field d ''user_id'' of Some u \<Rightarrow> u | None \<Rightarrow> []),
             title = (case str_field d ''title'' of Some s \<Rightarrow> s | None \<Rightarrow> []),
             description = str_field d ''description'',
             category_id = map_option nat (int_field d ''category_id''),
             priority_score = int_field d ''priority_score'',
             priority_label = str_field d ''priority_label'',
             deadline = str_field d ''deadline'',
             status = (case str_field d ''status'' of Some s \<Rightarrow> s | None \<Rightarrow> ''Pending''),
             task_created_at = now ev,
             task_updated_at = now ev\<rparr>
      in (row, save_task ev row (st\<lparr>next_id := next_id st + 1\<rparr>)))"

text \<open>
  \<open>TaskSerializer.create\<close>. The user identity comes from the serializer context. An
  exception of the scorer leaves \<open>create\<close> before anything is written.
\<close>

definition serializer_create ::
    "env \<Rightarrow> uuid \<Rightarrow> validated_data \<Rightarrow> app_state \<Rightarrow> (pyexc + task) \<times> app_state" where
  "serializer_create ev user_id validated_data st =
     (let d0 = validated_data(''priority_score'' := None);
          (scored, st1) = calculate_priority_score ev st user_id d0
      in case scored of
           Inl e \<Rightarrow> (Inl e, st1)
         | Inr calculated_score \<Rightarrow>
             (let d1 = d0(''priority_score'' \<mapsto> PInt calculated_score);
                  category_name = d1 ''category'';
                  d2 = d1(''category'' := None);
                  d3 = d2(''user_id'' \<mapsto> PStr user_id);
                  (d4, st2) =
                    (case category_name of
                       Some (PStr name) \<Rightarrow>
                         if name \<noteq> [] then
                           (let (cid, st') = use_category ev user_id name st1
                            in (d3(''category_id'' \<mapsto> PInt (int cid)), st'))
                         else (d3, st1)
                     | _ \<Rightarrow> (d3, st1));
                  (row, st3) = model_create ev d4 st2
              in (Inr row, st3)))"

subsection \<open>\<open>update\<close>\<close>

text \<open>\<open>setattr(instance, attr, value)\<close> for the attributes of a task.\<close>

definition opt_str :: "pyval \<Rightarrow> string option" where
  "opt_str v = (case v of PStr s \<Rightarrow> Some s | _ \<Rightarrow> None)"

definition set_attr :: "string \<Rightarrow> pyval \<Rightarrow> task \<Rightarrow> task" where
  "set_attr attr v t =
     (if attr = ''title'' then t\<lparr>title := (case v of PStr s \<Rightarrow> s | _ \<Rightarrow> [])\<rparr>
      else if attr = ''description'' then t\<lparr>description := opt_str v\<rparr>
      else if attr = ''priority_label'' then t\<lparr>priority_label := opt_str v\<rparr>
      else if attr = ''deadline'' then t\<lparr>deadline := opt_str v\<rparr>
      else if attr = ''status'' then t\<lparr>status := (case v of PStr s \<Rightarrow> s | _ \<Rightarrow> [])\<rparr>
      else if attr = ''priority_score''
        then t\<lparr>priority_score := (case v of PInt n \<Rightarrow> Some n | _ \<Rightarrow> None)\<rparr>
      else if attr = ''category_id''
        then t\<lparr>category_id := (case v of PInt n \<Rightarrow> Some (nat n) | _ \<Rightarrow> None)\<rparr>
      else if attr = ''user_id'' then t\<lparr>task_user_id := (case v of PStr s \<Rightarrow> s | _ \<Rightarrow> [])\<rparr>
      else t)"

definition model_attributes :: "string list" where
  "model_attributes =
     [''user_id'', ''title'', ''description'', ''category_id'', ''priority_score'',
      ''priority_label'', ''deadline'', ''status'']"

definition set_attrs :: "validated_data \<Rightarrow> task \<Rightarrow> task" where
  "set_attrs d t =
     foldl (\<lambda>acc attr. case d attr of None \<Rightarrow> acc | Some v \<Rightarrow> set_attr attr v acc)
       t model_attributes"

text \<open>\<open>TaskSerializer.update\<close>; the user identity is that of the request.\<close>

definition serializer_update ::
    "env \<Rightarrow> uuid \<Rightarrow> task \<Rightarrow> validated_data \<Rightarrow> app_state \<Rightarrow> task \<times> app_state" where
  "serializer_update ev user_id instance validated_data st =
     (let category_name = validated_data ''category'';
          d = validated_data(''category'' := None);
          (inst1, st1) =
            (case category_name of
               Some (PStr name) \<Rightarrow>
                 if name = [] then (instance\<lparr>category_id := None\<rparr>, st)
                 else
                   (let (cid, st') = use_category ev user_id name st
                    in (instance\<lparr>category_id := Some cid\<rparr>, st'))
             | _ \<Rightarrow> (instance, st));
          inst2 = set_attrs d inst1
      in (inst2\<lparr>task_updated_at := now ev\<rparr>, save_task ev inst2 st1))"

subsection \<open>What a saved task looks like in a response\<close>

text \<open>\<open>serializer.data\<close>: the fields of \<open>Meta.fields\<close>, one entry each. The primary key
  stands as a number and a timestamp as the number of its seconds.\<close>

definition json_opt_str :: "string option \<Rightarrow> json" where
  "json_opt_str v = (case v of None \<Rightarrow> JNull | Some s \<Rightarrow> JStr s)"

definition get_category_name :: "app_state \<Rightarrow> task \<Rightarrow> string option" where
  "get_category_name st obj =
     (case category_id obj of
        None \<Rightarrow> None
      | Some cid \<Rightarrow> map_option cat_name (find (\<lambda>c. cat_id c = cid) (categories st)))"

definition category_str :: "app_state \<Rightarrow> task \<Rightarrow> string option" where
  "category_str st obj =
     (case category_id obj of
        None \<Rightarrow> None
      | Some cid \<Rightarrow>
          map_option (\<lambda>c. cat_name c @ '' ('' @ cat_user_id c @ '')'')
            (find (\<lambda>c. cat_id c = cid) (categories st)))"

definition to_representation :: "app_state \<Rightarrow> task \<Rightarrow> json \<times> app_state" where
  "to_representation st obj =
     (JObj
        [(''id'', JInt (int (task_id obj))),
         (''title'', JStr (title obj)),
         (''description'', json_opt_str (description obj)),
         (''category'', json_opt_str (category_str st obj)),
         (''category_name'', json_opt_str (get_category_name st obj)),
         (''priority_score'', (case priority_score obj of None \<Rightarrow> JNull | Some n \<Rightarrow> JInt n)),
         (''priority_label'', json_opt_str (priority_label obj)),
         (''deadline'', json_opt_str (deadline obj)),
         (''status'', JStr (status obj)),
         (''created_at'', JInt (int (task_created_at obj))),
         (''updated_at'', JInt (int (task_updated_at obj)))],
      st\<lparr>queries := queries st + (if category_id obj = None then 0 else 2)\<rparr>)"

section \<open>Context processing (\<open>views.py\<close>)\<close>

subsection \<open>The two snapshots, read through the cache\<close>

text \<open>
  The active tasks of the user in the default order of the model (newest first), and the
  twenty newest context entries, each rendered by \<open>json.dumps\<close> with an indent of two.
  The text that \<open>isoformat\<close> gives a timestamp stands as its number of seconds. A
  cached value counts as a hit when it is not empty.
\<close>

definition tasks_for_processing :: "task list \<Rightarrow> uuid \<Rightarrow> task list" where
  "tasks_for_processing ts u =
     sort_key newest_first_key (filter (\<lambda>t. task_user_id t = u \<and> is_active t) ts)"

definition contexts_for_processing :: "context_entry list \<Rightarrow> uuid \<Rightarrow> context_entry list" where
  "contexts_for_processing es u =
     take 20 (sort_key (\<lambda>e. - int (entry_created_at e)) (filter (\<lambda>e. entry_user_id e = u) es))"

definition task_snapshot :: "task \<Rightarrow> json" where
  "task_snapshot t =
     JObj [(''title'', JStr (title t)), (''description'', json_opt_str (description t)),
           (''status'', JStr (status t)), (''deadline'', json_opt_str (deadline t))]"

definition context_snapshot :: "context_entry \<Rightarrow> json" where
  "context_snapshot e =
     JObj [(''content'', JStr (content e)), (''source_type'', JStr (source_type e)),
           (''insights'', insights e), (''recorded_at'', JStr (str_nat (entry_created_at e)))]"

definition cache_hit :: "string option \<Rightarrow> string option" where
  "cache_hit v = (case v of None \<Rightarrow> None | Some s \<Rightarrow> if s = [] then None else Some s)"

definition resolve_snapshots :: "env \<Rightarrow> uuid \<Rightarrow> app_state \<Rightarrow> (string \<times> string) \<times> app_state" where
  "resolve_snapshots ev user_uuid st =
     (let tasks_hit = cache_get ev st (tasks_cache_key user_uuid);
          contexts_hit = cache_get ev st (contexts_cache_key user_uuid);
          (tasks_str, st1) =
            (case cache_hit tasks_hit of
               None \<Rightarrow>
                 (let existing_tasks = tasks_for_processing (tasks st) user_uuid;
                      text = json_dumps (float_repr ev) 0 (JArr (map task_snapshot existing_tasks))
                  in (text, cache_set ev (tasks_cache_key user_uuid) text 3600
                              (st\<lparr>queries := queries st + 1\<rparr>)))
             | Some cached \<Rightarrow> (cached, st));
          (contexts_str, st2) =
            (case cache_hit contexts_hit of
               None \<Rightarrow>
                 (let all_contexts = contexts_for_processing (context_entries st1) user_uuid;
                      text = json_dumps (float_repr ev) 0 (JArr (map context_snapshot all_contexts))
                  in (text, cache_set ev (contexts_cache_key user_uuid) text 3600
                              (st1\<lparr>queries := queries st1 + 1\<rparr>)))
             | Some cached \<Rightarrow> (cached, st1))
      in ((tasks_str, contexts_str), st2))"

subsection \<open>The synthesis prompt\<close>

text \<open>\<open>bq\<close> puts a word between two backquotes; \<open>fence\<close> is the line of three
  backquotes that opens and closes a block of the prompt.\<close>

definition bq :: "string \<Rightarrow> string" where
  "bq s = CHR 0x60 # s @ [CHR 0x60]"

definition fence :: string where
  "fence = [CHR 0x60, CHR 0x60, CHR 0x60]"

definition synthesis_prompt :: "env \<Rightarrow> string \<Rightarrow> string \<Rightarrow> string" where
  \<open>synthesis_prompt ev tasks_str contexts_str = join [CHR 0x0A]
     [[],
      ''You are a hyper-intelligent and meticulous task creation assistant. Your purpose is to analyze a user's unstructured notes and messages ('' @ bq ''Contexts'' @ '') and compare them against their structured '' @ bq ''Existing Tasks'' @ '' to identify and create new, actionable tasks. You must be very careful to avoid creating duplicate or outdated tasks.'',
      [],
      ''Today's Date: '' @ today ev,
      [],
      ''**Primary Directive:**'',
      ''Analyze the '' @ bq ''Contexts to Analyze'' @ '' section. For each context, decide if a new task should be created. A new task is ONLY created if it's a new, actionable item that is NOT already covered by an '' @ bq ''Existing Task'' @ '' (regardless of its status) and is NOT for an event that has already passed.'',
      [],
      ''**Rules for Task Creation:**'',
      ''1.  **Check for Duplicates (Crucial):** Before creating a task, meticulously check the '' @ bq ''Existing Tasks'' @ ''. If a task with a similar title or description already exists (even if 'Completed'), do NOT create a new one.'',
      ''2.  **Analyze Dates Carefully:** Use "Today's Date" as a reference. Do not create tasks for events that are clearly in the past.'',
      ''3.  **Infer All Fields:** For each new task, you must infer a '' @ bq ''title'' @ '', '' @ bq ''description'' @ '', '' @ bq ''category'' @ '' (e.g., Work, Personal, Health), '' @ bq ''priority_label'' @ '' ('High', 'Medium', or 'Low'), and a '' @ bq ''deadline'' @ ''.'',
      ''4.  **Calculate Deadlines (Crucial):**'',
      ''    -   If a relative date is mentioned (e.g., "next Friday", "tomorrow"), calculate the absolute date and format it as 'YYYY-MM-DDTHH:MM:SSZ'.'',
      ''    -   **Day of the Week Logic:** When a day of the week (e.g., "Saturday", "Monday") is mentioned without the word "next", assume it refers to the **nearest upcoming** instance of that day.'',
      ''    -   **Example:** If today is Friday, July 4th, a task for "Saturday" should have a deadline of Saturday, July 5th. A task for "next Friday" would be July 11th.'',
      ''    -   If no time is mentioned, use a sensible default like '17:00:00'. If no deadline is implied, the deadline must be '' @ bq ''null'' @ ''.'',
      ''5.  **Strict JSON Output:** Your entire response MUST be a single JSON array '' @ bq ''[]'' @ ''. The array will contain zero or more task objects. Do NOT include any text, explanation, or markdown before or after the JSON array.'',
      [],
      ''---'',
      ''**Input Data:**'',
      [],
      ''**Existing Tasks:**'',
      fence @ ''json'',
      tasks_str,
      fence,
      [],
      ''**Contexts to Analyze:**'',
      fence @ ''json'',
      contexts_str,
      fence,
      [],
      ''---'',
      ''**Your JSON Response (must be only the array):**'',
      []]\<close>

definition synthesis_request :: "string \<Rightarrow> completion_request" where
  "synthesis_request p = \<lparr>prompt = p, temperature = 2 / 10, max_tokens = 1024, timeout = 45\<rparr>"

subsection \<open>Reading the suggestions out of the completion\<close>

text \<open>
  The body of the \<open>try\<close>: the completion, the span of \<open>\[.*\]\<close> and its decoding.
  \<open>Inr None\<close> is the early return when the text has no such span.
\<close>

definition suggested_tasks_of :: "nat \<Rightarrow> nat \<Rightarrow> http_result \<Rightarrow> pyexc + json option" where
  "suggested_tasks_of body_room span_room reply =
     bind_exc (completion_content body_room reply) (\<lambda>content_str.
       case content_str of
         JStr s \<Rightarrow>
           (case search_greedy (CHR ''['') (CHR '']'') s of
              None \<Rightarrow> Inr None
            | Some matched \<Rightarrow> map_sum id Some (json_loads span_room matched))
       | _ \<Rightarrow> Inl TypeError)"

text \<open>What a \<open>for\<close> loop runs over.\<close>

definition py_iter :: "json \<Rightarrow> pyexc + json list" where
  "py_iter v =
     (case v of
        JArr xs \<Rightarrow> Inr xs
      | JObj kvs \<Rightarrow> Inr (map (\<lambda>kv. JStr (fst kv)) kvs)
      | JStr s \<Rightarrow> Inr (map (\<lambda>cp. JStr (utf8 cp)) (code_points s))
      | _ \<Rightarrow> Inl TypeError)"

subsection \<open>Creating the suggested tasks\<close>

text \<open>
  The loop: a suggestion that does not validate is skipped; one that validates is
  created by the serializer, which scores it. An exception of the scorer leaves the
  loop, and what was written before it stays written.
\<close>

fun create_suggested ::
    "env \<Rightarrow> uuid \<Rightarrow> json list \<Rightarrow> json list \<Rightarrow> app_state \<Rightarrow> (pyexc + json list) \<times> app_state" where
  "create_suggested ev user_uuid [] created_tasks_info st = (Inr created_tasks_info, st)"
| "create_suggested ev user_uuid (task_data # rest) created_tasks_info st =
     (case to_internal_value ev False task_data of
        None \<Rightarrow> create_suggested ev user_uuid rest created_tasks_info st
      | Some validated \<Rightarrow>
          (case serializer_create ev user_uuid validated st of
             (Inl e, st1) \<Rightarrow> (Inl e, st1)
           | (Inr row, st1) \<Rightarrow>
               (let (info, st2) = to_representation st1 row
                in create_suggested ev user_uuid rest (created_tasks_info @ [info]) st2)))"

subsection \<open>\<open>process_contexts_for_tasks\<close>\<close>

text \<open>The answer of the endpoint to the synthesis request of a user in a state.\<close>

definition synthesis_reply :: "env \<Rightarrow> uuid \<Rightarrow> app_state \<Rightarrow> http_result" where
  "synthesis_reply ev user_id st =
     (let ((tasks_str, contexts_str), st1) = resolve_snapshots ev user_id st
      in endpoint_of ev (completions st1)
           (synthesis_request (synthesis_prompt ev tasks_str contexts_str)))"

text \<open>What the \<open>try\<close> of the view ends with: the suggestions read from that answer, with
  the room that the decoder has at this completion call (the snapshot step makes no
  call, so the number of the call is that of the state before it).\<close>

definition synthesis_outcome :: "env \<Rightarrow> uuid \<Rightarrow> app_state \<Rightarrow> pyexc + json option" where
  "synthesis_outcome ev user_id st =
     suggested_tasks_of (nesting_limit ev (completions st) Body)
       (nesting_limit ev (completions st) Span) (synthesis_reply ev user_id st)"

record response =
  resp_status :: nat
  resp_data :: json

definition process_contexts_for_tasks ::
    "env \<Rightarrow> string \<Rightarrow> app_state \<Rightarrow> (pyexc + response) \<times> app_state" where
  "process_contexts_for_tasks ev user_id st =
     (if \<not> is_uuid user_id then
        (Inr \<lparr>resp_status = 400,
              resp_data = JObj [(''error'', JStr ''Invalid user ID format.'')]\<rparr>, st)
      else
        (let (snapshots, st1) = resolve_snapshots ev user_id st;
             st2 = st1\<lparr>completions := completions st1 + 1\<rparr>
         in case synthesis_outcome ev user_id st of
              Inl e \<Rightarrow>
                (Inr \<lparr>resp_status = 500,
                      resp_data = JObj [(''error'', JStr ''Failed to communicate with the AI model.'')]\<rparr>,
                 st2)
            | Inr None \<Rightarrow>
                (Inr \<lparr>resp_status = 200,
                      resp_data = JObj [(''created_count'', JInt 0),
                                        (''details'', JStr ''No new tasks suggested by AI.'')]\<rparr>,
                 st2)
            | Inr (Some suggested) \<Rightarrow>
                (case py_iter suggested of
                   Inl e \<Rightarrow> (Inl e, st2)
                 | Inr items \<Rightarrow>
                     (case create_suggested ev user_id items [] st2 of
                        (Inl e, st3) \<Rightarrow> (Inl e, st3)
                      | (Inr created_tasks_info, st3) \<Rightarrow>
                          (Inr \<lparr>resp_status = 201,
                                resp_data =
                                  JObj [(''created_count'', JInt (int (length created_tasks_info))),
                                        (''created_tasks'', JArr created_tasks_info)]\<rparr>,
                           st3)))))"

section \<open>The task and context views, authentication and routing\<close>

subsection \<open>The writes of \<open>TaskViewSet\<close> and \<open>ContextEntryViewSet\<close>\<close>

text \<open>
  The queryset of a viewset holds the rows of the authenticated user only; a primary key
  outside it is answered with 404. \<open>update_status\<close> is the action of the source; the
  other writes are those of the framework's \<open>ModelViewSet\<close>, which validate the input
  and call \<open>create\<close> or \<open>update\<close> of the serializer, or \<open>delete\<close> of the row.
\<close>

definition get_object :: "app_state \<Rightarrow> uuid \<Rightarrow> nat \<Rightarrow> task option" where
  "get_object st user_id pk = find (\<lambda>t. task_id t = pk \<and> task_user_id t = user_id) (tasks st)"

definition plain_response :: "nat \<Rightarrow> json \<Rightarrow> pyexc + response" where
  "plain_response code d = Inr \<lparr>resp_status = code, resp_data = d\<rparr>"

definition not_found :: "pyexc + response" where
  "not_found = plain_response 404 (JObj [(''detail'', JStr ''Not found.'')])"

definition bad_request :: "pyexc + response" where
  "bad_request = plain_response 400 (JObj [(''detail'', JStr ''Invalid input.'')])"

definition task_create :: "env \<Rightarrow> uuid \<Rightarrow> json \<Rightarrow> app_state \<Rightarrow> (pyexc + response) \<times> app_state" where
  "task_create ev user_id data st =
     (case to_internal_value ev False data of
        None \<Rightarrow> (bad_request, st)
      | Some validated \<Rightarrow>
          (case serializer_create ev user_id validated st of
             (Inl e, st1) \<Rightarrow> (Inl e, st1)
           | (Inr row, st1) \<Rightarrow>
               (let (info, st2) = to_representation st1 row in (plain_response 201 info, st2))))"

definition task_update ::
    "env \<Rightarrow> uuid \<Rightarrow> nat \<Rightarrow> bool \<Rightarrow> json \<Rightarrow> app_state \<Rightarrow> (pyexc + response) \<times> app_state" where
  "task_update ev user_id pk partial data st =
     (case get_object st user_id pk of
        None \<Rightarrow> (not_found, st\<lparr>queries := queries st + 1\<rparr>)
      | Some instance \<Rightarrow>
          (case to_internal_value ev partial data of
             None \<Rightarrow> (bad_request, st\<lparr>queries := queries st + 1\<rparr>)
           | Some validated \<Rightarrow>
               (let (row, st1) =
                      serializer_update ev user_id instance validated
                        (st\<lparr>queries := queries st + 1\<rparr>);
                    (info, st2) = to_representation st1 row
                in (plain_response 200 info, st2))))"

definition update_status ::
    "env \<Rightarrow> uuid \<Rightarrow> nat \<Rightarrow> json \<Rightarrow> app_state \<Rightarrow> (pyexc + response) \<times> app_state" where
  "update_status ev user_id pk data st =
     (case get_object st user_id pk of
        None \<Rightarrow> (not_found, st\<lparr>queries := queries st + 1\<rparr>)
      | Some task \<Rightarrow>
          (case data of
             JObj kvs \<Rightarrow>
               (case map_of kvs ''status'' of
                  Some (JStr new_status) \<Rightarrow>
                    if new_status \<in> set [''Pending'', ''In Progress'', ''Completed''] then
                      (plain_response 200 (JObj [(''status'', JStr ''Task status updated'')]),
                       save_task ev (task\<lparr>status := new_status\<rparr>)
                         (st\<lparr>queries := queries st + 1\<rparr>))
                    else
                      (plain_response 400 (JObj [(''error'', JStr ''Invalid status'')]),
                       st\<lparr>queries := queries st + 1\<rparr>)
                | _ \<Rightarrow>
                    (plain_response 400 (JObj [(''error'', JStr ''Invalid status'')]),
                     st\<lparr>queries := queries st + 1\<rparr>))
           | _ \<Rightarrow> (Inl AttributeError, st\<lparr>queries := queries st + 1\<rparr>)))"

definition task_destroy :: "env \<Rightarrow> uuid \<Rightarrow> nat \<Rightarrow> app_state \<Rightarrow> (pyexc + response) \<times> app_state" where
  "task_destroy ev user_id pk st =
     (case get_object st user_id pk of
        None \<Rightarrow> (not_found, st\<lparr>queries := queries st + 1\<rparr>)
      | Some instance \<Rightarrow>
          (plain_response 204 JNull, delete_task ev instance (st\<lparr>queries := queries st + 1\<rparr>)))"

text \<open>\<open>ContextEntrySerializer.create\<close> puts the user of the request into the row and
  creates it; an update saves the changed row, a delete removes it.\<close>

definition context_create ::
    "env \<Rightarrow> uuid \<Rightarrow> string \<Rightarrow> string \<Rightarrow> json \<Rightarrow> app_state \<Rightarrow> context_entry \<times> app_state" where
  "context_create ev user_id text source ins st =
     (let row = \<lparr>entry_id = next_id st, entry_user_id = user_id, content = text,
                 source_type = source, insights = ins, entry_created_at = now ev\<rparr>
      in (row, save_context_entry ev row (st\<lparr>next_id := next_id st + 1\<rparr>)))"

definition context_update :: "env \<Rightarrow> context_entry \<Rightarrow> app_state \<Rightarrow> app_state" where
  "context_update ev instance st = save_context_entry ev instance st"

definition context_destroy :: "env \<Rightarrow> context_entry \<Rightarrow> app_state \<Rightarrow> app_state" where
  "context_destroy ev instance st = delete_context_entry ev instance st"

subsection \<open>Authentication (\<open>authentication.py\<close>) and permissions\<close>

text \<open>
  \<open>SupabaseTokenAuthentication.authenticate\<close>: without an \<open>Authorization\<close> header
  that starts with \<open>Bearer \<close> the request stays anonymous; with one, the token is the
  text up to the next space, the identity provider is asked for its user, and the user
  is looked up or created in the user table of the framework (the list of user names,
  which nothing else in the application reads or writes). A token that the provider
  does not know raises \<open>AuthenticationFailed\<close>.
\<close>

record request =
  http_method :: string
  authorization :: "string option"

datatype auth_result = Anonymous | Authenticated uuid | AuthenticationFailed

definition authenticate :: "env \<Rightarrow> request \<Rightarrow> string list \<Rightarrow> auth_result \<times> string list" where
  "authenticate ev req users =
     (case authorization req of
        None \<Rightarrow> (Anonymous, users)
      | Some auth_header \<Rightarrow>
          if \<not> starts_with ''Bearer '' auth_header then (Anonymous, users)
          else
            (let token = takeWhile (\<lambda>c. c \<noteq> CHR '' '') (drop 7 auth_header)
             in case supabase_user ev token of
                  None \<Rightarrow> (AuthenticationFailed, users)
                | Some user \<Rightarrow>
                    (Authenticated user,
                     if user \<in> set users then users else users @ [user])))"

datatype permission = AllowAny | IsAuthenticated

definition has_permission :: "permission \<Rightarrow> auth_result \<Rightarrow> bool" where
  "has_permission p a =
     (case p of
        AllowAny \<Rightarrow> True
      | IsAuthenticated \<Rightarrow> (case a of Authenticated u \<Rightarrow> True | _ \<Rightarrow> False))"

subsection \<open>The route \<open>api/process-contexts/<uuid:user_id>/\<close>\<close>

text \<open>
  What the framework does around a view function declared with \<open>@api_view\<close> and
  \<open>@permission_classes\<close>: it refuses a method that is not allowed, authenticates the
  request, checks the permission and then calls the view.
\<close>

definition api_view ::
    "string list \<Rightarrow> permission \<Rightarrow> env \<Rightarrow> request \<Rightarrow> string list \<Rightarrow>
     (app_state \<Rightarrow> (pyexc + response) \<times> app_state) \<Rightarrow> app_state \<Rightarrow>
     ((pyexc + response) \<times> app_state) \<times> string list" where
  "api_view methods perm ev req users view st =
     (if http_method req \<notin> set methods then
        ((plain_response 405 (JObj [(''detail'', JStr ''Method not allowed.'')]), st), users)
      else
        (case authenticate ev req users of
           (AuthenticationFailed, users1) \<Rightarrow>
             ((plain_response 401 (JObj [(''detail'', JStr ''Authentication failed'')]), st), users1)
         | (who, users1) \<Rightarrow>
             if has_permission perm who then (view st, users1)
             else
               ((plain_response 403
                   (JObj [(''detail'', JStr ''Authentication credentials were not provided.'')]),
                 st), users1)))"

text \<open>
  The view is declared with \<open>@api_view(['POST'])\<close> and
  \<open>@permission_classes([AllowAny])\<close>; it receives the user identity of the path and
  never reads the request.
\<close>

definition process_contexts_route ::
    "env \<Rightarrow> request \<Rightarrow> string list \<Rightarrow> string \<Rightarrow> app_state \<Rightarrow>
     ((pyexc + response) \<times> app_state) \<times> string list" where
  "process_contexts_route ev req users user_id st =
     api_view [''POST''] AllowAny ev req users (process_contexts_for_tasks ev user_id) st"

section \<open>Vocabulary for the properties of the writes\<close>

text \<open>
  The cache entries keyed to a user are those whose key starts with \<open>user_\<close> and the
  identity of the user; \<open>entries_of_user\<close> maps the rest of the key to the entry.
  \<open>scores\<close> lists the primary key and the score of every task of the store,
  \<open>all_scored\<close> says that no task of the store is without a score, and \<open>succeeded\<close>
  that a view answered with a status below 300.
\<close>

definition entries_of_user :: "uuid \<Rightarrow> app_state \<Rightarrow> string \<Rightarrow> (string \<times> nat) option" where
  "entries_of_user v st = (\<lambda>rest. cache st (''user_'' @ v @ rest))"

definition scores :: "app_state \<Rightarrow> (nat \<times> int option) list" where
  "scores st = map (\<lambda>t. (task_id t, priority_score t)) (tasks st)"

definition all_scored :: "app_state \<Rightarrow> bool" where
  "all_scored st = list_all (\<lambda>t. priority_score t \<noteq> None) (tasks st)"

definition succeeded :: "pyexc + response \<Rightarrow> bool" where
  "succeeded r = (case r of Inl e \<Rightarrow> False | Inr resp \<Rightarrow> resp_status resp < 300)"

text \<open>
  A state to try the writes on: one task and one context entry of the first user, and
  snapshots in the cache for both users. \<open>with_delete_pattern\<close> is an environment whose
  cache backend deletes by pattern.
\<close>

definition note_of_alice :: context_entry where
  "note_of_alice =
     \<lparr>entry_id = 2, entry_user_id = alice, content = ''call the bank'', source_type = ''note'',
      insights = JNull, entry_created_at = 0\<rparr>"

definition warm_state :: app_state where
  "warm_state =
     \<lparr>tasks = [pending_task 1], categories = [], context_entries = [note_of_alice],
      cache = [tasks_cache_key alice \<mapsto> (''[]'', 3600),
               contexts_cache_key alice \<mapsto> (''[]'', 3600),
               tasks_cache_key bob \<mapsto> (''[]'', 3600),
               contexts_cache_key bob \<mapsto> (''[]'', 3600)],
      next_id = 3, queries = 0, completions = 0\<rparr>"

definition with_delete_pattern :: "env \<Rightarrow> env" where
  "with_delete_pattern ev = ev\<lparr>has_delete_pattern := True\<rparr>"

text \<open>An identity provider that knows one token, which is that of the second user.\<close>

definition knowing_secret :: "env \<Rightarrow> env" where
  "knowing_secret ev =
     ev\<lparr>supabase_user := (\<lambda>token. if token = ''secret'' then Some bob else None)\<rparr>"

section \<open>Properties of the decoder and of the priority scorer\<close>

subsection \<open>The room of the decoder\<close>

text \<open>
  The decoder raises nothing but \<open>JSONDecodeError\<close>, \<open>ValueError\<close> and
  \<open>RecursionError\<close>, and what it does without \<open>RecursionError\<close> in some room it does in
  every larger one.
\<close>

lemma deliver_exc: "deliver v st = Inl e \<Longrightarrow> e = JSONDecodeError"
  by (cases "(v, st)" rule: deliver.cases) auto

lemma pstep_exc:
  "pstep room st t = Inl e \<Longrightarrow> e = JSONDecodeError \<or> e = ValueError \<or> e = RecursionError"
  by (cases "(room, st, t)" rule: pstep.cases)
     (auto simp: start_value_def start_key_def close_arr_def close_obj_def open_container_def
        split: pmode.splits token.splits json.splits list.splits frame.splits option.splits
          if_splits dest: deliver_exc)

lemma pstep_more_room:
  assumes "room \<le> room'" and "pstep room st t \<noteq> Inl RecursionError"
  shows "pstep room' st t = pstep room st t"
  using assms
  by (cases "(room, st, t)" rule: pstep.cases)
     (auto simp: start_value_def open_container_def
        split: pmode.splits token.splits if_splits)

lemma parse_tokens_exc:
  "parse_tokens room st ts = Inl e \<Longrightarrow>
     e = JSONDecodeError \<or> e = ValueError \<or> e = RecursionError"
  by (induction ts arbitrary: st)
     (auto split: pstate.splits sum.splits dest: pstep_exc)

lemma parse_tokens_more_room:
  assumes "room \<le> room'" and "parse_tokens room st ts \<noteq> Inl RecursionError"
  shows "parse_tokens room' st ts = parse_tokens room st ts"
  using assms(2)
proof (induction ts arbitrary: st)
  case Nil
  then show ?case by simp
next
  case (Cons t ts)
  show ?case
  proof (cases "pstep room st t")
    case (Inl e)
    with Cons.prems have "pstep room st t \<noteq> Inl RecursionError" by auto
    from pstep_more_room[OF assms(1) this] Inl show ?thesis by simp
  next
    case (Inr st')
    then have "pstep room st t \<noteq> Inl RecursionError" by simp
    from pstep_more_room[OF assms(1) this] Inr Cons.prems Cons.IH[of st'] show ?thesis
      by simp
  qed
qed

lemma json_loads_exc:
  "json_loads room s = Inl e \<Longrightarrow> e = JSONDecodeError \<or> e = ValueError \<or> e = RecursionError"
  unfolding json_loads_def by (rule parse_tokens_exc)

lemma json_loads_more_room:
  assumes "room \<le> room'" and "json_loads room s \<noteq> Inl RecursionError"
  shows "json_loads room' s = json_loads room s"
  using assms unfolding json_loads_def by (rule parse_tokens_more_room)

lemma bind_exc_not_raised:
  "bind_exc r f \<noteq> Inl e \<Longrightarrow> r \<noteq> Inl e"
  by (auto simp: bind_exc_def)

lemma py_getitem_no_recursion: "py_getitem d k \<noteq> Inl RecursionError"
  by (cases "(d, k)" rule: py_getitem.cases)
     (auto simp: py_index_def map_sum_def split: option.splits sum.splits)

lemma completion_content_more_room:
  assumes "room \<le> room'" and "completion_content room r \<noteq> Inl RecursionError"
  shows "completion_content room' r = completion_content room r"
proof (cases r)
  case NoReply
  then show ?thesis by (simp add: completion_content_def)
next
  case (Reply code body)
  show ?thesis
  proof (cases "400 \<le> code \<and> code < 600")
    case True
    with Reply show ?thesis by (simp add: completion_content_def)
  next
    case False
    with Reply assms(2) have "json_loads room body \<noteq> Inl RecursionError"
      by (auto simp: completion_content_def bind_exc_def)
    from json_loads_more_room[OF assms(1) this] Reply False show ?thesis
      by (auto simp: completion_content_def)
  qed
qed

lemma nesting_limit_floor: "64 \<le> nesting_limit ev call site"
  by (simp add: nesting_limit_def)

lemma completion_content_at_floor:
  assumes "completion_content 64 r = Inr v"
  shows "completion_content (nesting_limit ev call site) r = Inr v"
  using completion_content_more_room[OF nesting_limit_floor, of r ev call site] assms by simp


subsection \<open>Handlers, spans and runs of digits\<close>

lemma inner_handler_catches:
  "except_matches [JSONDecodeError, KeyError, TypeError, ValueError] e \<longleftrightarrow>
     e = JSONDecodeError \<or> e = KeyError \<or> e = TypeError \<or> e = ValueError"
  by (auto simp: except_matches_def isinstance_def)

lemma outer_handler_catches:
  "except_matches [RequestException, KeyError, ValueError, IndexError] e \<longleftrightarrow>
     e = RequestException \<or> e = HTTPError \<or> e = KeyError \<or> e = ValueError
       \<or> e = JSONDecodeError \<or> e = IndexError"
  by (auto simp: except_matches_def isinstance_def)

lemma label_fallback_values:
  "label_fallback td = 85 \<or> label_fallback td = 50 \<or> label_fallback td = 15"
  by (auto simp: label_fallback_def split: pyval.splits)

lemma search_greedy_Some:
  assumes "search_greedy opn cls s = Some m"
  shows "\<exists>pre post. s = pre @ m @ post \<and> opn \<notin> set pre \<and> cls \<notin> set post \<and>
           hd m = opn \<and> last m = cls \<and> 2 \<le> length m"
proof -
  define pre where "pre = takeWhile (\<lambda>x. x \<noteq> opn) s"
  from assms obtain c body where d: "dropWhile (\<lambda>x. x \<noteq> opn) s = c # body"
    and cls: "cls \<in> set body" and m: "m = c # upto_last cls body"
    by (auto simp: search_greedy_def split: list.splits if_splits)
  have c: "c = opn" using hd_dropWhile[of "\<lambda>x. x \<noteq> opn" s] d by auto
  define post where "post = rev (takeWhile (\<lambda>x. x \<noteq> cls) (rev body))"
  have body: "body = upto_last cls body @ post"
  proof -
    have "rev (rev body) =
        rev (takeWhile (\<lambda>x. x \<noteq> cls) (rev body) @ dropWhile (\<lambda>x. x \<noteq> cls) (rev body))"
      by (simp only: takeWhile_dropWhile_id)
    then show ?thesis by (simp only: rev_rev_ident rev_append upto_last_def post_def)
  qed
  have dne: "dropWhile (\<lambda>x. x \<noteq> cls) (rev body) \<noteq> []"
    using cls by (simp add: dropWhile_eq_Nil_conv)
  then have "hd (dropWhile (\<lambda>x. x \<noteq> cls) (rev body)) = cls"
    using hd_dropWhile[of "\<lambda>x. x \<noteq> cls" "rev body"] by auto
  with dne have last: "last (upto_last cls body) = cls" and ne: "upto_last cls body \<noteq> []"
    by (simp_all add: upto_last_def last_rev)
  have "cls \<notin> set post"
    using set_takeWhileD[of cls "\<lambda>x. x \<noteq> cls" "rev body"] by (auto simp: post_def)
  moreover have "opn \<notin> set pre"
    using set_takeWhileD[of opn "\<lambda>x. x \<noteq> opn" s] by (auto simp: pre_def)
  moreover have "s = pre @ m @ post"
  proof -
    have "s = pre @ dropWhile (\<lambda>x. x \<noteq> opn) s" by (simp add: pre_def)
    also have "\<dots> = pre @ c # body" by (simp add: d)
    also have "\<dots> = pre @ m @ post" using body by (simp add: m)
    finally show ?thesis .
  qed
  moreover have "hd m = opn" by (simp add: m c)
  moreover have "last m = cls" using last ne by (simp add: m)
  moreover have "2 \<le> length m" using ne by (cases "upto_last cls body") (auto simp: m)
  ultimately show ?thesis by blast
qed

lemma search_greedy_None:
  assumes "search_greedy opn cls s = None"
  shows "\<not> (\<exists>a b c. s = a @ opn # b @ cls # c)"
proof
  assume "\<exists>a b c. s = a @ opn # b @ cls # c"
  then obtain a b c where s: "s = a @ opn # b @ cls # c" by blast
  then have "opn \<in> set s" by simp
  from split_list_first[OF this] obtain ys zs where yz: "s = ys @ opn # zs" "opn \<notin> set ys"
    by blast
  then have d: "dropWhile (\<lambda>x. x \<noteq> opn) s = opn # zs"
    by (auto simp: dropWhile_append3)
  have "cls \<in> set zs"
  proof -
    from s yz(1) have "a @ opn # b @ cls # c = ys @ opn # zs" by simp
    then consider us where "a = ys @ us" "us @ opn # b @ cls # c = opn # zs"
      | us where "a @ us = ys" "opn # b @ cls # c = us @ opn # zs"
      by (auto simp: append_eq_append_conv2)
    then show ?thesis
    proof cases
      case 1
      then show ?thesis by (cases us) auto
    next
      case 2
      with yz(2) have "us = []" by (cases us) auto
      with 2 show ?thesis by auto
    qed
  qed
  with d assms show False by (simp add: search_greedy_def)
qed


lemma outer_handler_misses:
  "\<not> except_matches [RequestException, KeyError, ValueError, IndexError] OverflowError"
  "\<not> except_matches [RequestException, KeyError, ValueError, IndexError] RecursionError"
  "\<not> except_matches [RequestException, KeyError, ValueError, IndexError] TypeError"
  by (simp_all add: except_matches_def isinstance_def)

lemma search_digits_Some:
  assumes "search_digits s = Some ds"
  shows "\<exists>pre post. code_points s = pre @ ds @ post \<and> ds \<noteq> [] \<and> list_all is_decimal ds \<and>
           \<not> list_ex is_decimal pre \<and> (post = [] \<or> \<not> is_decimal (hd post))"
proof -
  define pre where "pre = takeWhile (\<lambda>x. \<not> is_decimal x) (code_points s)"
  define r where "r = dropWhile (\<lambda>x. \<not> is_decimal x) (code_points s)"
  define post where "post = dropWhile is_decimal r"
  from assms have ds: "ds = takeWhile is_decimal r" "ds \<noteq> []"
    by (auto simp: search_digits_def r_def split: list.splits)
  have "code_points s = pre @ ds @ post" by (simp add: pre_def r_def post_def ds)
  moreover have "list_all is_decimal ds"
    using set_takeWhileD[of _ is_decimal r] by (auto simp: ds list_all_iff)
  moreover have "\<not> list_ex is_decimal pre"
    using set_takeWhileD[of _ "\<lambda>x. \<not> is_decimal x" "code_points s"]
    by (auto simp: pre_def list_ex_iff)
  moreover have "post = [] \<or> \<not> is_decimal (hd post)"
    using hd_dropWhile[of is_decimal r] by (auto simp: post_def)
  ultimately show ?thesis using ds(2) by blast
qed

lemma search_digits_None: "search_digits s = None \<longleftrightarrow> \<not> list_ex is_decimal (code_points s)"
proof -
  have "takeWhile is_decimal (dropWhile (\<lambda>x. \<not> is_decimal x) (code_points s)) = []
          \<longleftrightarrow> \<not> list_ex is_decimal (code_points s)"
  proof (cases "dropWhile (\<lambda>x. \<not> is_decimal x) (code_points s)")
    case Nil
    then have "\<not> list_ex is_decimal (code_points s)" by (auto simp: list_ex_iff)
    then show ?thesis by (simp add: Nil)
  next
    case (Cons c r)
    then have "is_decimal c"
      using hd_dropWhile[of "\<lambda>x. \<not> is_decimal x" "code_points s"] by auto
    moreover have "c \<in> set (code_points s)"
      using Cons set_dropWhileD[of c "\<lambda>x. \<not> is_decimal x" "code_points s"] by auto
    ultimately show ?thesis using Cons by (auto simp: list_ex_iff)
  qed
  then show ?thesis by (auto simp: search_digits_def split: list.splits)
qed

text \<open>\<open>int\<close> of a run of digits is the number it denotes, up to 4300 digits.\<close>

lemma spaces_not_decimal:
  "list_all (\<lambda>c. \<not> is_decimal c)
     [9, 10, 11, 12, 13, 32, 133, 160, 5760, 8192, 8193, 8194, 8195, 8196, 8197,
      8198, 8199, 8200, 8201, 8202, 8232, 8233, 8239, 8287, 12288]"
  by code_simp

lemma marks_not_decimal: "\<not> is_decimal 43" "\<not> is_decimal 45" "\<not> is_decimal 95"
  by code_simp+

lemma decimal_is_no_mark:
  assumes "is_decimal c"
  shows "\<not> is_int_space c" "c \<noteq> 43" "c \<noteq> 45" "c \<noteq> 95"
proof -
  show "\<not> is_int_space c"
    using assms spaces_not_decimal unfolding is_int_space_def list_all_iff by blast
  show "c \<noteq> 43" "c \<noteq> 45" "c \<noteq> 95"
    using assms marks_not_decimal by blast+
qed

lemma int_body_ok_digits:
  "ds \<noteq> [] \<Longrightarrow> list_all is_decimal ds \<Longrightarrow> int_body_ok ds"
  by (induction ds rule: int_body_ok.induct) (auto dest: decimal_is_no_mark)

lemma int_strip_digits:
  assumes "ds \<noteq> []" "list_all is_decimal ds"
  shows "int_strip ds = ds"
proof -
  from assms have h: "\<not> is_int_space (hd ds)" "\<not> is_int_space (last ds)"
    by (auto simp: list_all_iff dest: decimal_is_no_mark)
  from assms(1) h(1) have a: "dropWhile is_int_space ds = ds" by (cases ds) auto
  have "hd (rev ds) = last ds" using assms(1) by (simp add: hd_rev)
  with h(2) have "\<not> is_int_space (hd (rev ds))" by simp
  moreover have "rev ds \<noteq> []" using assms(1) by simp
  ultimately have b: "dropWhile is_int_space (rev ds) = rev ds"
    by (cases "rev ds") auto
  show ?thesis by (simp add: int_strip_def a b)
qed

lemma int_of_digits:
  assumes "ds \<noteq> []" "list_all is_decimal ds"
  shows "int_of_code_points ds =
           (if int (length ds) \<le> int_max_str_digits then Inr (decimal_number ds) else Inl ValueError)"
proof -
  from assms obtain c r where ds: "ds = c # r" by (cases ds) auto
  with assms(2) have c: "c \<noteq> 45" "c \<noteq> 43" by (auto dest: decimal_is_no_mark)
  have f: "filter (\<lambda>c. c \<noteq> 95) ds = ds"
    using assms(2) by (auto simp: list_all_iff filter_id_conv dest: decimal_is_no_mark)
  show ?thesis
    using int_strip_digits[OF assms] int_body_ok_digits[OF assms] c f
    by (simp add: int_of_code_points_def Let_def ds)
qed

lemma extract_digit_score_run:
  "extract_digit_score (JStr s) =
     (case search_digits s of
        None \<Rightarrow> Inl ValueError
      | Some ds \<Rightarrow>
          if int (length ds) \<le> int_max_str_digits then Inr (decimal_number ds) else Inl ValueError)"
proof (cases "search_digits s")
  case None
  then show ?thesis by (simp add: extract_digit_score_def)
next
  case (Some ds)
  from search_digits_Some[OF Some] have "ds \<noteq> []" "list_all is_decimal ds" by auto
  from int_of_digits[OF this] Some show ?thesis by (simp add: extract_digit_score_def)
qed

subsection \<open>What the extraction can raise\<close>

lemma int_of_code_points_exc: "int_of_code_points s = Inl e \<Longrightarrow> e = ValueError"
  by (auto simp: int_of_code_points_def Let_def split: prod.splits if_splits)

lemma py_int_exc: "py_int v = Inl e \<Longrightarrow> e = TypeError \<or> e = ValueError \<or> e = OverflowError"
  by (cases v rule: py_int.cases) (auto simp: int_of_str_def dest: int_of_code_points_exc)

lemma py_getitem_str_exc: "py_getitem d (KStr k) = Inl e \<Longrightarrow> e = KeyError \<or> e = TypeError"
  by (cases d) (auto split: option.splits)

lemma extract_digit_score_exc: "extract_digit_score (JStr s) = Inl e \<Longrightarrow> e = ValueError"
  by (auto simp: extract_digit_score_run split: option.splits if_splits)

lemma extract_score_str:
  "extract_score room (JStr s) =
     (case search_greedy (CHR ''{'') (CHR ''}'') s of
        None \<Rightarrow> extract_digit_score (JStr s)
      | Some m \<Rightarrow>
          (case json_loads room m of
             Inl e \<Rightarrow>
               if e = RecursionError then Inl RecursionError else extract_digit_score (JStr s)
           | Inr d \<Rightarrow>
               (case py_getitem d (KStr ''score'') of
                  Inl e \<Rightarrow> extract_digit_score (JStr s)
                | Inr v \<Rightarrow>
                    (case py_int v of
                       Inr n \<Rightarrow> Inr n
                     | Inl e \<Rightarrow>
                         if e = OverflowError then Inl OverflowError
                         else extract_digit_score (JStr s)))))"
  by (auto simp: extract_score_def extract_object_score_def bind_exc_def inner_handler_catches
      split: option.splits sum.splits
      dest: json_loads_exc py_getitem_str_exc py_int_exc)

lemma extract_score_exc:
  "extract_score room (JStr s) = Inl e \<Longrightarrow>
     e = ValueError \<or> e = OverflowError \<or> e = RecursionError"
  by (auto simp: extract_score_str split: option.splits sum.splits if_splits
      dest: extract_digit_score_exc)

lemma extract_score_more_room:
  assumes "room \<le> room'" and "extract_score room (JStr s) \<noteq> Inl RecursionError"
  shows "extract_score room' (JStr s) = extract_score room (JStr s)"
proof (cases "search_greedy (CHR ''{'') (CHR ''}'') s")
  case None
  then show ?thesis by (simp add: extract_score_str)
next
  case (Some m)
  with assms(2) have "json_loads room m \<noteq> Inl RecursionError"
    by (auto simp: extract_score_str)
  from json_loads_more_room[OF assms(1) this] Some show ?thesis
    by (simp add: extract_score_str)
qed

lemma extract_score_at_floor:
  assumes "extract_score 64 (JStr s) = r" and "r \<noteq> Inl RecursionError"
  shows "extract_score (nesting_limit ev call site) (JStr s) = r"
  using extract_score_more_room[OF nesting_limit_floor, of s ev call site] assms by simp

lemma extract_score_with_room:
  assumes "extract_score r0 (JStr x) = v" and "v \<noteq> Inl RecursionError" and "r0 \<le> room"
  shows "extract_score room (JStr x) = v"
  using extract_score_more_room[OF assms(3), of x] assms(1,2) by simp


subsection \<open>Claim C1\<close>

lemma content_null_reply:
  \<open>completion_content 64 (Reply 200 ''{"choices": [{"message": {"content": null}}]}'') = Inr JNull\<close>
  by code_simp


text \<open>
  Claim C1 says that a failure of the completion call or of the score extraction always
  ends in the fallback of the label (85, 50, 15, 50) and never in an exception. The
  handler of the outer \<open>try\<close> names \<open>RequestException\<close>, \<open>KeyError\<close>,
  \<open>ValueError\<close> and \<open>IndexError\<close>, but not \<open>TypeError\<close>. A response with status
  200 whose \<open>content\<close> is \<open>null\<close> makes both \<open>re.search\<close> calls raise
  \<open>TypeError\<close>: the first inside the inner \<open>try\<close>, whose handler catches it, the
  second inside that handler. For every candidate, user and state the routine then
  raises \<open>TypeError\<close> to its caller instead of returning the fallback.
\<close>

theorem calculate_priority_score_null_content_raises:
  \<open>fst (calculate_priority_score
          (ev\<lparr>endpoint_of := \<lambda>n r. Reply 200 ''{"choices": [{"message": {"content": null}}]}''\<rparr>)
          st user_id task_data) = Inl TypeError\<close>
  by (simp add: calculate_priority_score_def scoring_reply_def score_of_reply_def
      completion_content_at_floor[OF content_null_reply] bind_exc_def extract_score_def
      extract_object_score_def extract_digit_score_def except_matches_def isinstance_def)

subsection \<open>Evaluations used below\<close>

lemma content_of_score_500:
  \<open>completion_content 64 (Reply 200 (chat_body ''{"score": 500}'')) = Inr (JStr ''{"score": 500}'')\<close>
  by code_simp

lemma content_of_plain_answer:
  \<open>completion_content 64 (Reply 200 (chat_body ''the answer is 88'')) = Inr (JStr ''the answer is 88'')\<close>
  by code_simp

lemma extract_score_500: \<open>extract_score 64 (JStr ''{"score": 500}'') = Inr 500\<close>
  by code_simp

lemma extract_score_42: \<open>extract_score 1 (JStr ''{"score": 42}'') = Inr 42\<close>
  by code_simp

lemma extract_score_7:
  \<open>extract_score 1 (JStr ''blah blah {"score": 7} trailing text'') = Inr 7\<close>
  by code_simp

lemma extract_score_88: \<open>extract_score 0 (JStr ''the answer is 88'') = Inr 88\<close>
  by code_simp

lemma extract_score_none: \<open>extract_score 0 (JStr ''no numbers here'') = Inl ValueError\<close>
  by code_simp

lemma extract_score_two_objects: \<open>extract_score 64 (JStr ''9 {"score": 7} {}'') = Inr 9\<close>
  by code_simp

lemma spec_extract_score_two_objects: \<open>spec_extract_score 64 ''9 {"score": 7} {}'' = Inr 7\<close>
  by code_simp

lemma greedy_span_7:
  \<open>search_greedy (CHR ''{'') (CHR ''}'') ''blah blah {"score": 7} trailing text''
     = Some ''{"score": 7}''\<close>
  by code_simp

lemma loads_span_7: \<open>json_loads 64 ''{"score": 7}'' = Inr (JObj [(''score'', JInt 7)])\<close>
  by code_simp

text \<open>Digits of another script: the two escapes in the body of the response are the
  Arabic-Indic digits four (U+0664) and two (U+0662), and the extraction reads 42.\<close>

lemma content_of_arabic_digits:
  \<open>completion_content 64
      (Reply 200 (''{"choices": [{"message": {"content": "'' @ [CHR 0x5C] @ ''u0664'' @
                   [CHR 0x5C] @ ''u0662"}}]}''))
     = Inr (JStr (utf8 0x664 @ utf8 0x662))\<close>
  by code_simp

lemma extract_score_arabic_digits: "extract_score 64 (JStr (utf8 0x664 @ utf8 0x662)) = Inr 42"
  by code_simp

subsection \<open>Claim C2\<close>

text \<open>
  Claim C2 says that for every raw text of the completion the routine returns an integer
  in the interval from 1 to 100. The routine returns what \<open>int\<close> gives for the
  \<open>score\<close> entry and never compares it with a bound: the text \<open>{"score": 500}\<close>
  scores 500.
\<close>

theorem score_500_counterexample:
  \<open>fst (calculate_priority_score (answering (chat_body ''{"score": 500}'')) empty_state alice
          Map.empty) = Inr 500\<close>
  by (simp add: calculate_priority_score_def scoring_reply_def answering_def
      score_of_reply_def nesting_limit_def content_of_score_500 extract_score_500 bind_exc_def)

text \<open>
  Claim C2 as amended: whenever the completion carries a text as its content, the
  extraction of the score from that text raises nothing but \<open>ValueError\<close>,
  \<open>OverflowError\<close> (for a \<open>score\<close> entry that is an infinite float) or
  \<open>RecursionError\<close> (for a span of braces nested deeper than the decoder has room
  for). Unless it raises one of the last two, which the routine passes on to its caller,
  the routine returns an integer: the integer that the extraction reads from the text,
  as it is and without a bound, or, when the extraction raises \<open>ValueError\<close>, the
  fallback of the label, which is 85, 50 or 15 and so within 1 to 100.
\<close>

theorem calculate_priority_score_unclamped:
  assumes "completion_content (nesting_limit ev (completions st) Body)
             (scoring_reply ev st user_id task_data) = Inr (JStr raw)"
  shows "fst (calculate_priority_score ev st user_id task_data) =
           (case extract_score (nesting_limit ev (completions st) Span) (JStr raw) of
              Inr n \<Rightarrow> Inr n
            | Inl e \<Rightarrow> if e = ValueError then Inr (label_fallback task_data) else Inl e)
       \<and> (\<forall>e. extract_score (nesting_limit ev (completions st) Span) (JStr raw) = Inl e \<longrightarrow>
              e = ValueError \<or> e = OverflowError \<or> e = RecursionError)
       \<and> (extract_score (nesting_limit ev (completions st) Span) (JStr raw)
              \<notin> {Inl OverflowError, Inl RecursionError} \<longrightarrow>
            (\<exists>n. fst (calculate_priority_score ev st user_id task_data) = Inr n))
       \<and> (label_fallback task_data = 85 \<or> label_fallback task_data = 50
            \<or> label_fallback task_data = 15)"
proof -
  let ?x = "extract_score (nesting_limit ev (completions st) Span) (JStr raw)"
  have exc: "\<forall>e. ?x = Inl e \<longrightarrow> e = ValueError \<or> e = OverflowError \<or> e = RecursionError"
    by (auto dest: extract_score_exc)
  have a: "fst (calculate_priority_score ev st user_id task_data) =
           (case ?x of
              Inr n \<Rightarrow> Inr n
            | Inl e \<Rightarrow> if e = ValueError then Inr (label_fallback task_data) else Inl e)"
  proof (cases ?x)
    case (Inr n)
    with assms show ?thesis
      by (simp add: calculate_priority_score_def score_of_reply_def bind_exc_def)
  next
    case (Inl e)
    with exc have "e = ValueError \<or> e = OverflowError \<or> e = RecursionError" by simp
    with Inl assms show ?thesis
      by (auto simp: calculate_priority_score_def score_of_reply_def bind_exc_def
          outer_handler_catches outer_handler_misses)
  qed
  have c: "?x \<notin> {Inl OverflowError, Inl RecursionError} \<longrightarrow>
            (\<exists>n. fst (calculate_priority_score ev st user_id task_data) = Inr n)"
    using exc by (cases ?x) (auto simp: a)
  from a exc c label_fallback_values[of task_data] show ?thesis by blast
qed

theorem calculate_priority_score_unclamped_witness:
  \<open>completion_content (nesting_limit (answering (chat_body ''the answer is 88'')) 0 Body)
      (scoring_reply (answering (chat_body ''the answer is 88'')) empty_state alice Map.empty)
      = Inr (JStr ''the answer is 88'')
   \<and> extract_score (nesting_limit (answering (chat_body ''the answer is 88'')) 0 Span)
        (JStr ''the answer is 88'') = Inr 88
   \<and> fst (calculate_priority_score (answering (chat_body ''the answer is 88'')) empty_state
            alice Map.empty) = Inr 88\<close>
proof -
  have c0: "completions empty_state = 0" by (simp add: empty_state_def)
  have h1: \<open>completion_content (nesting_limit (answering (chat_body ''the answer is 88''))
        (completions empty_state) Body)
      (scoring_reply (answering (chat_body ''the answer is 88'')) empty_state alice Map.empty)
      = Inr (JStr ''the answer is 88'')\<close>
    by (simp add: scoring_reply_def answering_def nesting_limit_def content_of_plain_answer)
  have h2: \<open>extract_score (nesting_limit (answering (chat_body ''the answer is 88''))
        (completions empty_state) Span) (JStr ''the answer is 88'') = Inr 88\<close>
    by (rule extract_score_at_floor) (simp_all add: extract_score_more_room[OF _ _, of 0 64] extract_score_88)
  from calculate_priority_score_unclamped[OF h1] h1 h2 show ?thesis
    by (simp add: c0)
qed

subsection \<open>Claim C3\<close>

text \<open>
  Claim C3 says that the extraction takes the first non-greedy span of braces. The
  pattern of the code is \<open>\{.*\}\<close>, which is greedy: on a text with two objects the span
  runs to the last closing brace, does not decode, and the first run of digits is
  returned, where the extraction as the claim words it returns the score of the first
  object.
\<close>

theorem extract_score_lazy_counterexample:
  \<open>extract_score 64 (JStr ''9 {"score": 7} {}'') = Inr 9
   \<and> spec_extract_score 64 ''9 {"score": 7} {}'' = Inr 7\<close>
  by (simp add: extract_score_two_objects spec_extract_score_two_objects)

text \<open>
  Claim C3 as amended, for every raw text and every room of the decoder. The span runs
  from the first opening brace to the last closing brace after it, line breaks
  included, and there is none only when no closing brace follows the first opening one.
  The extraction decodes that span, takes the entry \<open>score\<close> of the object and
  converts it with \<open>int\<close>; that integer is the score. \<open>RecursionError\<close> of the decoder
  and \<open>OverflowError\<close> of \<open>int\<close> are passed on. In every other case (no span, a span
  that does not decode, no entry \<open>score\<close>, an entry that \<open>int\<close> refuses) the score is
  the number that the first maximal run of decimal digits of the text denotes, whatever
  the script of the digits; the extraction fails with \<open>ValueError\<close> when the text holds
  no digit, and also when that run has more than 4300 digits. The four examples of the
  claim come out as it says.
\<close>

theorem extract_score_greedy:
  \<open>(case search_greedy (CHR ''{'') (CHR ''}'') s of
      Some m \<Rightarrow>
        (\<exists>pre post. s = pre @ m @ post \<and> CHR ''{'' \<notin> set pre \<and> CHR ''}'' \<notin> set post \<and>
           hd m = CHR ''{'' \<and> last m = CHR ''}'')
    | None \<Rightarrow> \<not> (\<exists>a b c. s = a @ CHR ''{'' # b @ CHR ''}'' # c))
   \<and> extract_score room (JStr s) =
       (case search_greedy (CHR ''{'') (CHR ''}'') s of
          None \<Rightarrow> extract_digit_score (JStr s)
        | Some m \<Rightarrow>
            (case json_loads room m of
               Inl e \<Rightarrow>
                 if e = RecursionError then Inl RecursionError else extract_digit_score (JStr s)
             | Inr d \<Rightarrow>
                 (case py_getitem d (KStr ''score'') of
                    Inl e \<Rightarrow> extract_digit_score (JStr s)
                  | Inr v \<Rightarrow>
                      (case py_int v of
                         Inr n \<Rightarrow> Inr n
                       | Inl e \<Rightarrow>
                           if e = OverflowError then Inl OverflowError
                           else extract_digit_score (JStr s)))))
   \<and> extract_digit_score (JStr s) =
       (case search_digits s of
          None \<Rightarrow> Inl ValueError
        | Some ds \<Rightarrow>
            if int (length ds) \<le> 4300 then Inr (decimal_number ds) else Inl ValueError)
   \<and> (case search_digits s of
        Some ds \<Rightarrow>
          (\<exists>pre post. code_points s = pre @ ds @ post \<and> ds \<noteq> [] \<and> list_all is_decimal ds \<and>
             \<not> list_ex is_decimal pre \<and> (post = [] \<or> \<not> is_decimal (hd post)))
      | None \<Rightarrow> \<not> list_ex is_decimal (code_points s))
   \<and> (1 \<le> room \<longrightarrow>
        extract_score room (JStr ''{"score": 42}'') = Inr 42
        \<and> extract_score room (JStr ''blah blah {"score": 7} trailing text'') = Inr 7)
   \<and> extract_score room (JStr ''the answer is 88'') = Inr 88
   \<and> extract_score room (JStr ''no numbers here'') = Inl ValueError\<close>
proof -
  have a: "case search_greedy (CHR ''{'') (CHR ''}'') s of
      Some m \<Rightarrow>
        (\<exists>pre post. s = pre @ m @ post \<and> CHR ''{'' \<notin> set pre \<and> CHR ''}'' \<notin> set post \<and>
           hd m = CHR ''{'' \<and> last m = CHR ''}'')
    | None \<Rightarrow> \<not> (\<exists>a b c. s = a @ CHR ''{'' # b @ CHR ''}'' # c)"
  proof (cases "search_greedy (CHR ''{'') (CHR ''}'') s")
    case None
    with search_greedy_None[OF None] show ?thesis by simp
  next
    case (Some m)
    with search_greedy_Some[OF Some] show ?thesis by auto
  qed
  note b = extract_score_str[of room s]
  have c: "extract_digit_score (JStr s) =
       (case search_digits s of
          None \<Rightarrow> Inl ValueError
        | Some ds \<Rightarrow>
            if int (length ds) \<le> 4300 then Inr (decimal_number ds) else Inl ValueError)"
    by (rule extract_digit_score_run[of s, unfolded int_max_str_digits_def])
  have d: "case search_digits s of
        Some ds \<Rightarrow>
          (\<exists>pre post. code_points s = pre @ ds @ post \<and> ds \<noteq> [] \<and> list_all is_decimal ds \<and>
             \<not> list_ex is_decimal pre \<and> (post = [] \<or> \<not> is_decimal (hd post)))
      | None \<Rightarrow> \<not> list_ex is_decimal (code_points s)"
  proof (cases "search_digits s")
    case None
    with search_digits_None[of s] show ?thesis by simp
  next
    case (Some ds)
    with search_digits_Some[OF Some] show ?thesis by simp
  qed
  have e: \<open>1 \<le> room \<longrightarrow>
        extract_score room (JStr ''{"score": 42}'') = Inr 42
        \<and> extract_score room (JStr ''blah blah {"score": 7} trailing text'') = Inr 7\<close>
    using extract_score_with_room[OF extract_score_42, of room]
      extract_score_with_room[OF extract_score_7, of room]
    by blast
  have f: \<open>extract_score room (JStr ''the answer is 88'') = Inr 88\<close>
    by (rule extract_score_with_room[OF extract_score_88]) simp_all
  have g: \<open>extract_score room (JStr ''no numbers here'') = Inl ValueError\<close>
    by (rule extract_score_with_room[OF extract_score_none]) simp_all
  from a b c d e f g show ?thesis by (intro conjI)
qed

theorem extract_score_greedy_witness:
  \<open>search_greedy (CHR ''{'') (CHR ''}'') ''blah blah {"score": 7} trailing text''
     = Some ''{"score": 7}''
   \<and> json_loads 64 ''{"score": 7}'' = Inr (JObj [(''score'', JInt 7)])
   \<and> extract_score 64 (JStr ''blah blah {"score": 7} trailing text'') = Inr 7
   \<and> extract_score 64 (JStr ''{"score": 42}'') = Inr 42\<close>
  using extract_score_greedy[of \<open>''blah blah {"score": 7} trailing text''\<close> 64]
  by (simp add: greedy_span_7 loads_span_7)

section \<open>Properties of the scoring context\<close>

lemma score_desc_key_le:
  "score_desc_key x \<le> score_desc_key y \<longleftrightarrow> ranks_before x y"
  by (auto simp: score_desc_key_def ranks_before_def split: option.splits)

lemma sorted_wrt_ranks:
  "sorted (map score_desc_key xs) \<longleftrightarrow> sorted_wrt ranks_before xs"
  by (simp add: sorted_map score_desc_key_le[symmetric] sorted_wrt_iff_nth_less)

lemma context_props:
  fixes ts u
  defines "act \<equiv> filter (\<lambda>t. task_user_id t = u \<and> is_active t) ts"
  defines "r \<equiv> existing_tasks_for_scoring ts u"
  shows "length r = min 10 (length act)"
    and "set r \<subseteq> set act"
    and "sorted_wrt ranks_before r"
    and "\<forall>x\<in>set r. \<forall>y\<in>set act. y \<notin> set r \<longrightarrow> ranks_before x y"
    and "r = [] \<longleftrightarrow> act = []"
    and "\<exists>rest. mset (r @ rest) = mset act \<and> sorted_wrt ranks_before (r @ rest)"
proof -
  define L where "L = sort_key score_desc_key act"
  have r: "r = take 10 L" by (simp add: r_def existing_tasks_for_scoring_def L_def act_def)
  have sL: "sorted (map score_desc_key L)" by (simp add: L_def)
  have setL: "set L = set act" by (simp add: L_def)
  have lenL: "length L = length act" by (simp add: L_def)
  show "length r = min 10 (length act)" by (simp add: r lenL min.commute)
  show "set r \<subseteq> set act" using set_take_subset[of 10 L] by (simp add: r setL)
  have "sorted (map score_desc_key (take 10 L))"
    using sL sorted_wrt_take[of "(\<le>)" "map score_desc_key L" 10] by (simp add: take_map)
  then show "sorted_wrt ranks_before r" by (simp add: r sorted_wrt_ranks)
  show "\<forall>x\<in>set r. \<forall>y\<in>set act. y \<notin> set r \<longrightarrow> ranks_before x y"
  proof (intro ballI impI)
    fix x y assume x: "x \<in> set r" and y: "y \<in> set act" and n: "y \<notin> set r"
    have "L = take 10 L @ drop 10 L" by simp
    then have "set L = set (take 10 L) \<union> set (drop 10 L)" by (metis set_append)
    with y n have yd: "y \<in> set (drop 10 L)" by (auto simp: r setL)
    have "sorted (map score_desc_key (take 10 L) @ map score_desc_key (drop 10 L))"
      using sL by (simp flip: map_append)
    then have "\<forall>a\<in>set (take 10 L). \<forall>b\<in>set (drop 10 L). score_desc_key a \<le> score_desc_key b"
      by (auto simp: sorted_append)
    with x yd show "ranks_before x y" by (auto simp: r score_desc_key_le)
  qed
  show "r = [] \<longleftrightarrow> act = []"
    by (cases L) (use lenL in \<open>auto simp: r\<close>)
  have "mset (r @ drop 10 L) = mset act" by (simp add: r L_def)
  moreover have "sorted_wrt ranks_before (r @ drop 10 L)"
    using sL by (simp add: r sorted_wrt_ranks)
  ultimately show "\<exists>rest. mset (r @ rest) = mset act \<and> sorted_wrt ranks_before (r @ rest)"
    by blast
qed

lemma eleven_tasks_by_score:
  "map task_id (existing_tasks_for_scoring eleven_tasks alice) = [1, 2, 3, 4, 5, 6, 7, 8, 9, 10]"
  by code_simp

lemma eleven_tasks_by_recency:
  "map task_id (spec_scoring_context eleven_tasks alice) = [2, 3, 4, 5, 6, 7, 8, 9, 10, 11]"
  by code_simp

lemma eleven_tasks_active:
  "map task_id (filter (\<lambda>t. task_user_id t = alice \<and> is_active t) eleven_tasks)
     = [1, 2, 3, 4, 5, 6, 7, 8, 9, 10, 11]"
  by code_simp

lemma one_scored_left_out:
  "map task_id (existing_tasks_for_scoring one_scored_of_eleven alice)
     = [2, 3, 4, 5, 6, 7, 8, 9, 10, 11]"
  by code_simp

subsection \<open>Claim C6\<close>

text \<open>
  Claim C6 says that the context section is built from up to the ten most recent active
  tasks of the user, ordered by descending score. The query of the code orders all active
  tasks of the user by descending score and keeps the first ten, whatever their age. With
  eleven active tasks of which the newest has the lowest score, the code leaves the newest
  task out, and the selection as the claim words it leaves the best-scored task out.
\<close>

theorem scoring_context_recency_counterexample:
  "map task_id (existing_tasks_for_scoring eleven_tasks alice) = [1, 2, 3, 4, 5, 6, 7, 8, 9, 10]
   \<and> map task_id (spec_scoring_context eleven_tasks alice) = [2, 3, 4, 5, 6, 7, 8, 9, 10, 11]"
  by (simp add: eleven_tasks_by_score eleven_tasks_by_recency)

text \<open>
  Claim C6 as amended: for every task table and user, the context section is built from
  the active (Pending or In Progress) tasks of that user that come first when they are
  put in descending order of score, where a task without a score ranks before every
  task that has one (the order of the store for a descending column): the tasks taken
  are the first ten of such an ordering of all active tasks of the user, each as often
  as the table holds it, or all of them when there are fewer than ten. So no active
  task that is left out ranks before one that is taken, and a task with a score is
  taken only when every active task without one is. The section is the fixed sentence
  when the user has no active task, and otherwise one bullet line per task, joined by
  line breaks.
\<close>

theorem scoring_context_top_ten:
  "(let act = filter (\<lambda>t. task_user_id t = u \<and> is_active t) ts;
        r = existing_tasks_for_scoring ts u
    in length r = min 10 (length act)
       \<and> (\<exists>rest. mset (r @ rest) = mset act \<and> sorted_wrt ranks_before (r @ rest))
       \<and> set r \<subseteq> set act
       \<and> sorted_wrt ranks_before r
       \<and> (\<forall>x\<in>set r. \<forall>y\<in>set act. y \<notin> set r \<longrightarrow> ranks_before x y)
       \<and> ((\<forall>y\<in>set act. priority_score y = None \<longrightarrow> y \<in> set r)
            \<or> (\<forall>x\<in>set r. priority_score x = None))
       \<and> existing_tasks_str r =
           (if act = [] then ''The user has no other active tasks.''
            else join [CHR 0x0A] (map task_line r)))"
proof -
  let ?act = "filter (\<lambda>t. task_user_id t = u \<and> is_active t) ts"
  let ?r = "existing_tasks_for_scoring ts u"
  note p = context_props[of ts u]
  have nulls: "(\<forall>y\<in>set ?act. priority_score y = None \<longrightarrow> y \<in> set ?r)
            \<or> (\<forall>x\<in>set ?r. priority_score x = None)"
  proof (rule ccontr)
    assume "\<not> ?thesis"
    then obtain y x where y: "y \<in> set ?act" "priority_score y = None" "y \<notin> set ?r"
      and x: "x \<in> set ?r" "priority_score x \<noteq> None" by blast
    with p(4) have "ranks_before x y" by blast
    with y(2) x(2) show False by (auto simp: ranks_before_def split: option.splits)
  qed
  from p nulls show ?thesis
    by (simp add: Let_def existing_tasks_str_def)
qed

theorem scoring_context_top_ten_witness:
  "length (existing_tasks_for_scoring eleven_tasks alice) = 10
   \<and> sorted_wrt ranks_before (existing_tasks_for_scoring eleven_tasks alice)
   \<and> ranks_before (pending_task 10) (pending_task 11)
   \<and> map task_id (existing_tasks_for_scoring one_scored_of_eleven alice)
        = [2, 3, 4, 5, 6, 7, 8, 9, 10, 11]
   \<and> existing_tasks_str (existing_tasks_for_scoring eleven_tasks alice)
        = join [CHR 0x0A] (map task_line (existing_tasks_for_scoring eleven_tasks alice))"
proof -
  let ?act = "filter (\<lambda>t. task_user_id t = alice \<and> is_active t) eleven_tasks"
  let ?r = "existing_tasks_for_scoring eleven_tasks alice"
  have len: "length ?act = 11"
    using arg_cong[OF eleven_tasks_active, of length] by simp
  have x: "pending_task 10 \<in> set ?r" by code_simp
  have y: "pending_task 11 \<in> set ?act" by code_simp
  have n: "pending_task 11 \<notin> set ?r"
  proof
    assume "pending_task 11 \<in> set ?r"
    then have "task_id (pending_task 11) \<in> set (map task_id ?r)" by simp
    then show False by (simp add: eleven_tasks_by_score pending_task_def)
  qed
  have ne: "?act \<noteq> []" using len by auto
  from scoring_context_top_ten[of alice eleven_tasks] x y n len ne show ?thesis
    by (auto simp: Let_def one_scored_left_out)
qed

section \<open>Lemmas about the writes\<close>

subsection \<open>Keys of other users, validated data and saved rows\<close>

text \<open>
  A pattern that starts with a literal text matches only keys that start with it, and
  the identity of a user is a literal of this kind; two identities have the same
  length, so a key of one user never starts with the prefix of another.
\<close>

lemma glob_match_literal:
  assumes "\<forall>c\<in>set lit. c \<noteq> CHR ''*'' \<and> c \<noteq> CHR ''?''" and "glob_match (lit @ pat) k"
  shows "\<exists>k'. k = lit @ k'"
  using assms
proof (induction lit arbitrary: k)
  case Nil
  then show ?case by simp
next
  case (Cons a lit)
  then show ?case by (cases k) auto
qed

lemma uuid_chars:
  assumes "is_uuid u" and "c \<in> set u"
  shows "c \<in> set ''0123456789abcdef-''"
proof -
  from assms(2) obtain i where i: "i < length u" "u ! i = c"
    by (auto simp: in_set_conv_nth)
  with assms(1) have len: "length u = length uuid_shape"
    by (simp add: is_uuid_def uuid_shape_def)
  with i have "(c, uuid_shape ! i) \<in> set (zip u uuid_shape)"
    by (auto simp: in_set_conv_nth intro!: exI[of _ i])
  with assms(1) have "if uuid_shape ! i = CHR ''-'' then c = CHR ''-''
                      else c \<in> set ''0123456789abcdef''"
    by (auto simp: is_uuid_def list_all_iff)
  then show ?thesis by (auto split: if_splits)
qed

lemma uuid_literal:
  assumes "is_uuid u"
  shows "\<forall>c\<in>set (''user_'' @ u). c \<noteq> CHR ''*'' \<and> c \<noteq> CHR ''?''"
  using uuid_chars[OF assms] by auto

lemma uuid_length: "is_uuid u \<Longrightarrow> length u = 36"
  by (simp add: is_uuid_def)

lemma other_user_prefix:
  assumes "is_uuid u" "is_uuid v" "v \<noteq> u"
  shows "''user_'' @ v @ rest \<noteq> (''user_'' @ u) @ k'"
proof
  assume "''user_'' @ v @ rest = (''user_'' @ u) @ k'"
  then have "v @ rest = u @ k'" by simp
  moreover have "length v = length u" using assms by (simp add: uuid_length)
  ultimately have "v = u" by (simp add: append_eq_append_conv)
  with assms show False by simp
qed

lemma other_user_not_matched:
  assumes "is_uuid u" "is_uuid v" "v \<noteq> u"
  shows "\<not> glob_match (''user_'' @ u @ pat) (''user_'' @ v @ rest)"
proof
  assume "glob_match (''user_'' @ u @ pat) (''user_'' @ v @ rest)"
  then have "glob_match ((''user_'' @ u) @ pat) (''user_'' @ v @ rest)" by simp
  from glob_match_literal[OF uuid_literal[OF assms(1)] this]
  obtain k' where "''user_'' @ v @ rest = (''user_'' @ u) @ k'" by blast
  with other_user_prefix[OF assms] show False by blast
qed

lemma other_user_not_key:
  assumes "is_uuid u" "is_uuid v" "v \<noteq> u"
  shows "''user_'' @ v @ rest \<noteq> tasks_cache_key u"
    and "''user_'' @ v @ rest \<noteq> contexts_cache_key u"
  using other_user_prefix[OF assms, of rest "''_tasks_for_processing''"]
        other_user_prefix[OF assms, of rest "''_contexts_for_processing''"]
  by (simp_all add: tasks_cache_key_def contexts_cache_key_def)

lemma clear_task_caches_own:
  "cache (clear_task_caches ev (Some u) st) (tasks_cache_key u) = None"
  by (simp add: clear_task_caches_def Let_def cache_delete_def cache_delete_pattern_def)

lemma clear_context_caches_own:
  "cache (clear_context_caches ev (Some u) st) (contexts_cache_key u) = None"
  by (simp add: clear_context_caches_def Let_def cache_delete_def cache_delete_pattern_def)

lemma clear_task_caches_other:
  assumes "is_uuid u" "is_uuid v" "v \<noteq> u"
  shows "cache (clear_task_caches ev (Some u) st) (''user_'' @ v @ rest)
           = cache st (''user_'' @ v @ rest)"
  using other_user_not_matched[OF assms, of "''_task_list_*''" rest]
        other_user_not_key(1)[OF assms, of rest]
  by (simp add: clear_task_caches_def Let_def cache_delete_def cache_delete_pattern_def)

lemma clear_context_caches_other:
  assumes "is_uuid u" "is_uuid v" "v \<noteq> u"
  shows "cache (clear_context_caches ev (Some u) st) (''user_'' @ v @ rest)
           = cache st (''user_'' @ v @ rest)"
  using other_user_not_matched[OF assms, of "''_context_list_*''" rest]
        other_user_not_key(2)[OF assms, of rest]
  by (simp add: clear_context_caches_def Let_def cache_delete_def cache_delete_pattern_def)

lemma clear_task_caches_fields:
  "tasks (clear_task_caches ev x st) = tasks st"
  "categories (clear_task_caches ev x st) = categories st"
  "context_entries (clear_task_caches ev x st) = context_entries st"
  "next_id (clear_task_caches ev x st) = next_id st"
  "queries (clear_task_caches ev x st) = queries st"
  "completions (clear_task_caches ev x st) = completions st"
  by (simp_all add: clear_task_caches_def Let_def cache_delete_def cache_delete_pattern_def
        split: option.splits)

lemma clear_context_caches_fields:
  "tasks (clear_context_caches ev x st) = tasks st"
  "categories (clear_context_caches ev x st) = categories st"
  "context_entries (clear_context_caches ev x st) = context_entries st"
  "next_id (clear_context_caches ev x st) = next_id st"
  "queries (clear_context_caches ev x st) = queries st"
  "completions (clear_context_caches ev x st) = completions st"
  by (simp_all add: clear_context_caches_def Let_def cache_delete_def cache_delete_pattern_def
        split: option.splits)

lemma cache_save_task:
  "cache (save_task ev t st) = cache (clear_task_caches ev (Some (task_user_id t)) st)"
  by (simp cong: if_cong add: save_task_def Let_def clear_task_cache_on_save_def clear_task_caches_def
        cache_delete_def cache_delete_pattern_def)

lemma cache_delete_task:
  "cache (delete_task ev t st) = cache (clear_task_caches ev (Some (task_user_id t)) st)"
  by (simp cong: if_cong add: delete_task_def Let_def clear_task_cache_on_delete_def clear_task_caches_def
        cache_delete_def cache_delete_pattern_def)

lemma cache_save_context_entry:
  "cache (save_context_entry ev e st)
     = cache (clear_context_caches ev (Some (entry_user_id e)) st)"
  by (simp cong: if_cong add: save_context_entry_def Let_def clear_context_cache_on_save_def
        clear_context_caches_def cache_delete_def cache_delete_pattern_def)

lemma cache_delete_context_entry:
  "cache (delete_context_entry ev e st)
     = cache (clear_context_caches ev (Some (entry_user_id e)) st)"
  by (simp cong: if_cong add: delete_context_entry_def Let_def clear_context_cache_on_delete_def
        clear_context_caches_def cache_delete_def cache_delete_pattern_def)

lemma cache_use_category:
  "use_category ev u name st = (cid, st') \<Longrightarrow> cache st' = cache st"
  by (auto simp: use_category_def split: option.splits)

lemma cache_calculate_priority_score:
  "calculate_priority_score ev st u d = (r, st') \<Longrightarrow> cache st' = cache st"
  by (auto simp: calculate_priority_score_def)

lemma cache_to_representation:
  "to_representation st row = (info, st') \<Longrightarrow> cache st' = cache st"
  by (auto simp: to_representation_def)


lemma writable_fields_eq:
  "writable_fields =
     [''title'', ''description'', ''category'', ''priority_label'', ''deadline'', ''status'']"
  by (simp add: writable_fields_def meta_fields_def read_only_fields_def)

lemma validate_fields_dom:
  "validate_fields ev partial kvs fs = Some vd \<Longrightarrow> dom vd \<subseteq> set fs"
proof (induction fs arbitrary: vd)
  case Nil
  then show ?case by simp
next
  case (Cons f fs)
  then show ?case
    by (fastforce split: option.splits if_splits)
qed

lemma to_internal_value_keys:
  assumes "to_internal_value ev partial data = Some vd"
  shows "dom vd \<subseteq> set writable_fields"
  using assms
  by (auto simp: to_internal_value_def split: json.splits dest!: validate_fields_dom)

lemma to_internal_value_no_key:
  assumes "to_internal_value ev partial data = Some vd" and "f \<notin> set writable_fields"
  shows "vd f = None"
  using to_internal_value_keys[OF assms(1)] assms(2) by (auto simp: dom_def)

lemma to_internal_value_derived:
  assumes "to_internal_value ev partial data = Some vd"
  shows "vd ''priority_score'' = None" "vd ''user_id'' = None" "vd ''category_id'' = None"
  by (rule to_internal_value_no_key[OF assms], simp add: writable_fields_eq)+

lemma foldl_preserves:
  assumes "\<And>a x. x \<in> set xs \<Longrightarrow> g (f a x) = g a"
  shows "g (foldl f a xs) = g a"
  using assms by (induction xs arbitrary: a) simp_all

lemma set_attrs_id: "task_id (set_attrs d t) = task_id t"
  unfolding set_attrs_def
  by (rule foldl_preserves) (simp add: set_attr_def split: option.splits)

lemma set_attrs_user:
  assumes "d ''user_id'' = None"
  shows "task_user_id (set_attrs d t) = task_user_id t"
  unfolding set_attrs_def
  by (rule foldl_preserves) (use assms in \<open>auto simp: set_attr_def split: option.splits\<close>)

lemma set_attrs_score:
  assumes "d ''priority_score'' = None"
  shows "priority_score (set_attrs d t) = priority_score t"
  unfolding set_attrs_def
  by (rule foldl_preserves) (use assms in \<open>auto simp: set_attr_def split: option.splits\<close>)

lemma model_create_row:
  assumes "model_create ev d st = (row, st')"
  shows "task_id row = next_id st"
    and "task_user_id row = (case str_field d ''user_id'' of Some u \<Rightarrow> u | None \<Rightarrow> [])"
    and "priority_score row = int_field d ''priority_score''"
    and "st' = save_task ev row (st\<lparr>next_id := next_id st + 1\<rparr>)"
  using assms by (auto simp: model_create_def Let_def)

lemma serializer_create_row:
  assumes "serializer_create ev u vd st = (Inr row, st')"
  obtains n st1 st2 where
    "calculate_priority_score ev st u (vd(''priority_score'' := None)) = (Inr n, st1)"
    "tasks st2 = tasks st1" "cache st2 = cache st1"
    "task_id row = next_id st2" "task_user_id row = u" "priority_score row = Some n"
    "st' = save_task ev row (st2\<lparr>next_id := next_id st2 + 1\<rparr>)"
proof -
  obtain sc st1 where c: "calculate_priority_score ev st u (vd(''priority_score'' := None)) = (sc, st1)"
    by (cases "calculate_priority_score ev st u (vd(''priority_score'' := None))")
  with assms obtain n where n: "sc = Inr n"
    by (cases sc) (auto simp: serializer_create_def Let_def)
  define d3 where "d3 = (vd(''priority_score'' \<mapsto> PInt n, ''category'' := None,
                            ''user_id'' \<mapsto> PStr u))"
  define p where "p = (case vd ''category'' of
                       Some (PStr name) \<Rightarrow>
                         if name \<noteq> [] then
                           (let (cid, st') = use_category ev u name st1
                            in (d3(''category_id'' \<mapsto> PInt (int cid)), st'))
                         else (d3, st1)
                     | _ \<Rightarrow> (d3, st1))"
  have p: "str_field (fst p) ''user_id'' = Some u"
          "int_field (fst p) ''priority_score'' = Some n"
          "tasks (snd p) = tasks st1" "cache (snd p) = cache st1"
    by (auto simp: p_def d3_def str_field_def int_field_def use_category_def Let_def
          split: option.splits pyval.splits prod.splits)
  from assms c n have m: "model_create ev (fst p) (snd p) = (row, st')"
    by (auto simp: serializer_create_def Let_def p_def d3_def split: prod.splits
          option.splits pyval.splits if_splits)
  from model_create_row[OF m] p c n that show thesis by auto
qed

lemma serializer_create_failed:
  assumes "serializer_create ev u vd st = (Inl e, st')"
  shows "tasks st' = tasks st \<and> cache st' = cache st \<and> categories st' = categories st"
  using assms
  by (auto simp: serializer_create_def Let_def calculate_priority_score_def model_create_def
        split: prod.splits sum.splits option.splits pyval.splits if_splits)

lemma serializer_update_row:
  assumes "serializer_update ev u inst vd st = (row, st')"
    and "vd ''priority_score'' = None" "vd ''user_id'' = None"
  obtains saved st1 where
    "tasks st1 = tasks st" "cache st1 = cache st"
    "task_id saved = task_id inst" "task_user_id saved = task_user_id inst"
    "priority_score saved = priority_score inst"
    "st' = save_task ev saved st1"
proof -
  define p where "p = (case vd ''category'' of
               Some (PStr name) \<Rightarrow>
                 if name = [] then (inst\<lparr>category_id := None\<rparr>, st)
                 else
                   (let (cid, st') = use_category ev u name st
                    in (inst\<lparr>category_id := Some cid\<rparr>, st'))
             | _ \<Rightarrow> (inst, st))"
  have p: "task_id (fst p) = task_id inst" "task_user_id (fst p) = task_user_id inst"
          "priority_score (fst p) = priority_score inst"
          "tasks (snd p) = tasks st" "cache (snd p) = cache st"
    by (auto simp: p_def use_category_def Let_def
          split: option.splits pyval.splits prod.splits)
  let ?d = "vd(''category'' := None)"
  from assms(1) have s: "st' = save_task ev (set_attrs ?d (fst p)) (snd p)"
    by (auto simp: serializer_update_def Let_def p_def split: prod.splits)
  from assms(2,3) have d: "?d ''priority_score'' = None" "?d ''user_id'' = None" by simp_all
  have "priority_score (set_attrs ?d (fst p)) = priority_score inst"
       "task_user_id (set_attrs ?d (fst p)) = task_user_id inst"
       "task_id (set_attrs ?d (fst p)) = task_id inst"
    using set_attrs_score[of ?d "fst p"] set_attrs_user[of ?d "fst p"] set_attrs_id[of ?d "fst p"]
      d p by simp_all
  with p s that show thesis by blast
qed

lemma get_object_Some:
  assumes "get_object st u pk = Some inst"
  shows "inst \<in> set (tasks st)" "task_id inst = pk" "task_user_id inst = u"
  using assms by (auto simp: get_object_def find_Some_iff)

lemma succeeded_plain: "succeeded (plain_response code d) = (code < 300)"
  by (simp add: succeeded_def plain_response_def)

lemma succeeded_Inl: "\<not> succeeded (Inl e)"
  by (simp add: succeeded_def)

text \<open>The cache after each write of the task views: cleared for the user when the view
  succeeded, as it was otherwise.\<close>

lemma cache_serializer_create:
  assumes "serializer_create ev u vd st = (Inr row, st')"
  shows "cache st' = cache (clear_task_caches ev (Some u) st)"
proof -
  from assms obtain n st1 st2 where
    c: "calculate_priority_score ev st u (vd(''priority_score'' := None)) = (Inr n, st1)"
    and st2: "cache st2 = cache st1" and row: "task_user_id row = u"
    and st': "st' = save_task ev row (st2\<lparr>next_id := next_id st2 + 1\<rparr>)"
    by (rule serializer_create_row)
  from cache_calculate_priority_score[OF c] st2 have "cache st2 = cache st" by simp
  then show ?thesis
    by (simp cong: if_cong add: st' row save_task_def Let_def clear_task_cache_on_save_def
          clear_task_caches_def cache_delete_def cache_delete_pattern_def)
qed

lemma cache_task_create:
  assumes "task_create ev u data st = (r, st')"
  shows "cache st' = (if succeeded r then cache (clear_task_caches ev (Some u) st) else cache st)"
proof (cases "to_internal_value ev False data")
  case None
  with assms show ?thesis
    by (auto simp: task_create_def bad_request_def succeeded_plain)
next
  case (Some vd)
  show ?thesis
  proof (cases "serializer_create ev u vd st")
    case (Pair res st1)
    show ?thesis
    proof (cases res)
      case (Inl e)
      with Pair Some assms serializer_create_failed[of ev u vd st e st1] show ?thesis
        by (auto simp: task_create_def succeeded_Inl)
    next
      case (Inr row)
      with Pair have sc: "serializer_create ev u vd st = (Inr row, st1)" by simp
      obtain info st2 where rep: "to_representation st1 row = (info, st2)"
        by (cases "to_representation st1 row")
      from assms Some sc rep have "r = plain_response 201 info" "st' = st2"
        by (auto simp: task_create_def)
      with cache_to_representation[OF rep] cache_serializer_create[OF sc] show ?thesis
        by (simp add: succeeded_plain)
    qed
  qed
qed

lemma cache_serializer_update:
  assumes "serializer_update ev u inst vd st = (row, st')"
    and "vd ''priority_score'' = None" "vd ''user_id'' = None"
  shows "cache st' = cache (clear_task_caches ev (Some (task_user_id inst)) st)"
proof -
  from assms obtain saved st1 where
    st1: "cache st1 = cache st" and u: "task_user_id saved = task_user_id inst"
    and st': "st' = save_task ev saved st1"
    by (rule serializer_update_row)
  then show ?thesis
    by (simp cong: if_cong add: save_task_def Let_def clear_task_cache_on_save_def
          clear_task_caches_def cache_delete_def cache_delete_pattern_def)
qed

lemma clear_task_caches_queries:
  "cache (clear_task_caches ev x (st\<lparr>queries := q\<rparr>)) = cache (clear_task_caches ev x st)"
  by (simp cong: if_cong add: clear_task_caches_def Let_def cache_delete_def
        cache_delete_pattern_def split: option.splits)

lemma cache_task_update:
  assumes "task_update ev u pk partial data st = (r, st')"
  shows "cache st' = (if succeeded r then cache (clear_task_caches ev (Some u) st) else cache st)"
proof (cases "get_object st u pk")
  case None
  with assms show ?thesis
    by (auto simp: task_update_def not_found_def succeeded_plain)
next
  case (Some inst)
  note inst = get_object_Some[OF Some]
  show ?thesis
  proof (cases "to_internal_value ev partial data")
    case None
    with Some assms show ?thesis
      by (auto simp: task_update_def bad_request_def succeeded_plain)
  next
    case vd: (Some vd)
    obtain row st1 where up:
      "serializer_update ev u inst vd (st\<lparr>queries := queries st + 1\<rparr>) = (row, st1)"
      by (cases "serializer_update ev u inst vd (st\<lparr>queries := queries st + 1\<rparr>)")
    obtain info st2 where rep: "to_representation st1 row = (info, st2)"
      by (cases "to_representation st1 row")
    from assms Some vd up rep have r: "r = plain_response 200 info" "st' = st2"
      by (auto simp: task_update_def)
    from cache_serializer_update[OF up to_internal_value_derived(1,2)[OF vd]]
         cache_to_representation[OF rep] r inst
    show ?thesis
      by (simp add: succeeded_plain clear_task_caches_queries)
  qed
qed

lemma cache_update_status:
  assumes "update_status ev u pk data st = (r, st')"
  shows "cache st' = (if succeeded r then cache (clear_task_caches ev (Some u) st) else cache st)"
proof (cases "get_object st u pk")
  case None
  with assms show ?thesis
    by (auto simp: update_status_def not_found_def succeeded_plain)
next
  case (Some inst)
  note inst = get_object_Some[OF Some]
  have saved: "cache (save_task ev (inst\<lparr>status := s\<rparr>) (st\<lparr>queries := q\<rparr>))
               = cache (clear_task_caches ev (Some u) st)" for s q
    using inst by (simp add: cache_save_task clear_task_caches_queries)
  from assms Some show ?thesis
    by (auto simp: update_status_def succeeded_plain succeeded_Inl saved
          split: json.splits option.splits if_splits)
qed

lemma cache_task_destroy:
  assumes "task_destroy ev u pk st = (r, st')"
  shows "cache st' = (if succeeded r then cache (clear_task_caches ev (Some u) st) else cache st)"
proof (cases "get_object st u pk")
  case None
  with assms show ?thesis
    by (auto simp: task_destroy_def not_found_def succeeded_plain)
next
  case (Some inst)
  note inst = get_object_Some[OF Some]
  from assms Some inst show ?thesis
    by (auto simp: task_destroy_def succeeded_plain cache_delete_task clear_task_caches_queries)
qed

lemma cache_context_create:
  "cache (snd (context_create ev u text source ins st))
     = cache (clear_context_caches ev (Some u) st)"
  by (simp cong: if_cong add: context_create_def Let_def save_context_entry_def
        clear_context_cache_on_save_def clear_context_caches_def cache_delete_def
        cache_delete_pattern_def)

text \<open>What clearing means for the user and for the others.\<close>

lemma cleared_tasks:
  assumes "cache st' = cache (clear_task_caches ev (Some u) st)"
  shows "cache_hit (cache_get ev2 st' (tasks_cache_key u)) = None"
  using assms clear_task_caches_own[of ev u st]
  by (simp add: cache_get_def cache_hit_def)

lemma cleared_contexts:
  assumes "cache st' = cache (clear_context_caches ev (Some u) st)"
  shows "cache_hit (cache_get ev2 st' (contexts_cache_key u)) = None"
  using assms clear_context_caches_own[of ev u st]
  by (simp add: cache_get_def cache_hit_def)

lemma others_kept_tasks:
  assumes "is_uuid u" "is_uuid v" "v \<noteq> u"
    and "cache st' = cache (clear_task_caches ev (Some u) st) \<or> cache st' = cache st"
  shows "entries_of_user v st' = entries_of_user v st"
  using assms(4) clear_task_caches_other[OF assms(1-3)]
  by (auto simp: entries_of_user_def fun_eq_iff)

lemma others_kept_contexts:
  assumes "is_uuid u" "is_uuid v" "v \<noteq> u"
    and "cache st' = cache (clear_context_caches ev (Some u) st) \<or> cache st' = cache st"
  shows "entries_of_user v st' = entries_of_user v st"
  using assms(4) clear_context_caches_other[OF assms(1-3)]
  by (auto simp: entries_of_user_def fun_eq_iff)


section \<open>Properties of context processing\<close>

lemma keys_differ: "tasks_cache_key u \<noteq> contexts_cache_key u"
  by (simp add: tasks_cache_key_def contexts_cache_key_def)

lemma dumps_array_nonempty: "json_dumps fr l (JArr xs) \<noteq> []"
  by (simp add: bracketed_def)

lemma cache_hit_Some: "cache_hit v = Some s \<longleftrightarrow> v = Some s \<and> s \<noteq> []"
  by (auto simp: cache_hit_def split: option.splits)

lemma cache_hit_None: "cache_hit v = None \<longleftrightarrow> v = None \<or> v = Some []"
  by (auto simp: cache_hit_def split: option.splits)

lemma resolve_tables:
  assumes "resolve_snapshots ev u st = (r, st')"
  shows "tasks st' = tasks st \<and> categories st' = categories st
       \<and> context_entries st' = context_entries st
       \<and> next_id st' = next_id st \<and> completions st' = completions st"
  using assms
  by (auto simp: resolve_snapshots_def Let_def cache_set_def split: option.splits prod.splits)

lemma resolve_first:
  assumes "resolve_snapshots ev u st = ((t, c), st')"
  shows "(case cache_hit (cache_get ev st (tasks_cache_key u)) of
            Some s \<Rightarrow> t = s \<and> cache st' (tasks_cache_key u) = cache st (tasks_cache_key u)
          | None \<Rightarrow>
              t = json_dumps (float_repr ev) 0
                    (JArr (map task_snapshot (tasks_for_processing (tasks st) u))) \<and>
              cache st' (tasks_cache_key u) = Some (t, now ev + 3600))"
    and "(case cache_hit (cache_get ev st (contexts_cache_key u)) of
            Some s \<Rightarrow> c = s \<and> cache st' (contexts_cache_key u) = cache st (contexts_cache_key u)
          | None \<Rightarrow>
              c = json_dumps (float_repr ev) 0
                    (JArr (map context_snapshot
                       (contexts_for_processing (context_entries st) u))) \<and>
              cache st' (contexts_cache_key u) = Some (c, now ev + 3600))"
    and "queries st' = queries st
           + (if cache_hit (cache_get ev st (tasks_cache_key u)) = None then 1 else 0)
           + (if cache_hit (cache_get ev st (contexts_cache_key u)) = None then 1 else 0)"
  using assms keys_differ[of u] keys_differ[of u, symmetric]
  by (auto simp: resolve_snapshots_def Let_def cache_set_def split: option.splits prod.splits)

lemma resolve_hit_both:
  assumes "cache_hit (cache_get ev st (tasks_cache_key u)) = Some t"
    and "cache_hit (cache_get ev st (contexts_cache_key u)) = Some c"
  shows "resolve_snapshots ev u st = ((t, c), st)"
  using assms by (simp add: resolve_snapshots_def Let_def)

lemma resolve_twice:
  assumes r: "resolve_snapshots ev u st = ((t, c), st1)"
    and n2: "now ev \<le> n2" "n2 < now ev + 3600"
    and live: "\<forall>k v e. k \<in> {tasks_cache_key u, contexts_cache_key u} \<and> cache st k = Some (v, e)
                 \<and> now ev < e \<longrightarrow> n2 < e"
  shows "resolve_snapshots (ev\<lparr>now := n2\<rparr>) u st1 = ((t, c), st1)"
proof (rule resolve_hit_both)
  note f = resolve_first[OF r]
  show "cache_hit (cache_get (ev\<lparr>now := n2\<rparr>) st1 (tasks_cache_key u)) = Some t"
  proof (cases "cache_hit (cache_get ev st (tasks_cache_key u))")
    case None
    with f(1) n2 show ?thesis
      by (auto simp: cache_hit_Some cache_get_def dumps_array_nonempty simp del: json_dumps.simps)
  next
    case (Some s)
    with f(1) have ts: "t = s" and same: "cache st1 (tasks_cache_key u) = cache st (tasks_cache_key u)"
      by auto
    from Some obtain e where e: "cache st (tasks_cache_key u) = Some (s, e)" "now ev < e" "s \<noteq> []"
      by (auto simp: cache_hit_Some cache_get_def split: option.splits if_splits)
    with live have "n2 < e" by blast
    with e same ts show ?thesis by (simp add: cache_hit_Some cache_get_def)
  qed
  show "cache_hit (cache_get (ev\<lparr>now := n2\<rparr>) st1 (contexts_cache_key u)) = Some c"
  proof (cases "cache_hit (cache_get ev st (contexts_cache_key u))")
    case None
    with f(2) n2 show ?thesis
      by (auto simp: cache_hit_Some cache_get_def dumps_array_nonempty simp del: json_dumps.simps)
  next
    case (Some s)
    with f(2) have ts: "c = s"
      and same: "cache st1 (contexts_cache_key u) = cache st (contexts_cache_key u)"
      by auto
    from Some obtain e where e: "cache st (contexts_cache_key u) = Some (s, e)" "now ev < e" "s \<noteq> []"
      by (auto simp: cache_hit_Some cache_get_def split: option.splits if_splits)
    with live have "n2 < e" by blast
    with e same ts show ?thesis by (simp add: cache_hit_Some cache_get_def)
  qed
qed

lemma process_without_suggestions:
  assumes u: "is_uuid u"
    and r: "resolve_snapshots ev u st = (snap, st1)"
  shows "synthesis_outcome ev u st = Inl e \<Longrightarrow>
           process_contexts_for_tasks ev u st =
             (Inr \<lparr>resp_status = 500,
                   resp_data = JObj [(''error'', JStr ''Failed to communicate with the AI model.'')]\<rparr>,
              st1\<lparr>completions := completions st1 + 1\<rparr>)"
    and "synthesis_outcome ev u st = Inr None \<Longrightarrow>
           process_contexts_for_tasks ev u st =
             (Inr \<lparr>resp_status = 200,
                   resp_data = JObj [(''created_count'', JInt 0),
                                     (''details'', JStr ''No new tasks suggested by AI.'')]\<rparr>,
              st1\<lparr>completions := completions st1 + 1\<rparr>)"
  using u r by (simp_all add: process_contexts_for_tasks_def Let_def)

lemma answering_synthesis_reply: "synthesis_reply (answering b) u st = Reply 200 b"
  by (simp add: synthesis_reply_def answering_def Let_def split: prod.splits)

lemma alice_is_uuid: "is_uuid alice"
  by code_simp

lemma resolve_empty_state:
  "resolve_snapshots (answering b) alice empty_state =
     ((''[]'', ''[]''),
      empty_state\<lparr>queries := 2,
                   cache := [tasks_cache_key alice \<mapsto> (''[]'', 3600),
                             contexts_cache_key alice \<mapsto> (''[]'', 3600)]\<rparr>)"
  by (simp add: resolve_snapshots_def Let_def cache_get_def cache_hit_def cache_set_def
      empty_state_def answering_def tasks_for_processing_def contexts_for_processing_def
      bracketed_def)

subsection \<open>Claim C9\<close>

text \<open>
  Claim C9: the snapshot step is read-through, and a second run in immediate succession
  over unchanged data issues no query. For every user, state and clock: each of the two
  snapshots is the cached text when the cache holds a live, non-empty one, and otherwise
  the JSON text of the rows that the store returns, written to the cache with an expiry
  one hour (3600 seconds) after the clock; the number of queries issued is the number of
  misses. When the step runs again on the state it left, at a time before the entries it
  used have expired, it returns the same two texts and leaves the state as it is, the
  query counter included.
\<close>

theorem resolve_snapshots_read_through:
  assumes "resolve_snapshots ev u st = ((t, c), st1)"
    and "now ev \<le> n2" and "n2 < now ev + 3600"
    and "\<forall>k v e. k \<in> {tasks_cache_key u, contexts_cache_key u} \<and> cache st k = Some (v, e)
           \<and> now ev < e \<longrightarrow> n2 < e"
  shows "resolve_snapshots (ev\<lparr>now := n2\<rparr>) u st1 = ((t, c), st1)
     \<and> queries (snd (resolve_snapshots (ev\<lparr>now := n2\<rparr>) u st1)) = queries st1
     \<and> (case cache_hit (cache_get ev st (tasks_cache_key u)) of
           Some s \<Rightarrow> t = s
         | None \<Rightarrow>
             t = json_dumps (float_repr ev) 0
                   (JArr (map task_snapshot (tasks_for_processing (tasks st) u))) \<and>
             cache st1 (tasks_cache_key u) = Some (t, now ev + 3600))
     \<and> (case cache_hit (cache_get ev st (contexts_cache_key u)) of
           Some s \<Rightarrow> c = s
         | None \<Rightarrow>
             c = json_dumps (float_repr ev) 0
                   (JArr (map context_snapshot
                      (contexts_for_processing (context_entries st) u))) \<and>
             cache st1 (contexts_cache_key u) = Some (c, now ev + 3600))
     \<and> queries st1 = queries st
           + (if cache_hit (cache_get ev st (tasks_cache_key u)) = None then 1 else 0)
           + (if cache_hit (cache_get ev st (contexts_cache_key u)) = None then 1 else 0)"
proof -
  have again: "resolve_snapshots (ev\<lparr>now := n2\<rparr>) u st1 = ((t, c), st1)"
    using resolve_twice[OF assms] .
  moreover from again have "queries (snd (resolve_snapshots (ev\<lparr>now := n2\<rparr>) u st1)) = queries st1"
    by simp
  moreover have "case cache_hit (cache_get ev st (tasks_cache_key u)) of
           Some s \<Rightarrow> t = s
         | None \<Rightarrow>
             t = json_dumps (float_repr ev) 0
                   (JArr (map task_snapshot (tasks_for_processing (tasks st) u))) \<and>
             cache st1 (tasks_cache_key u) = Some (t, now ev + 3600)"
    using resolve_first(1)[OF assms(1)] by (auto split: option.splits)
  moreover have "case cache_hit (cache_get ev st (contexts_cache_key u)) of
           Some s \<Rightarrow> c = s
         | None \<Rightarrow>
             c = json_dumps (float_repr ev) 0
                   (JArr (map context_snapshot
                      (contexts_for_processing (context_entries st) u))) \<and>
             cache st1 (contexts_cache_key u) = Some (c, now ev + 3600)"
    using resolve_first(2)[OF assms(1)] by (auto split: option.splits)
  moreover note resolve_first(3)[OF assms(1)]
  ultimately show ?thesis by blast
qed

theorem resolve_snapshots_read_through_witness:
  "fst (resolve_snapshots (answering []) alice empty_state) = (''[]'', ''[]'')
   \<and> queries (snd (resolve_snapshots (answering []) alice empty_state)) = 2
   \<and> resolve_snapshots ((answering [])\<lparr>now := 10\<rparr>) alice
        (snd (resolve_snapshots (answering []) alice empty_state))
       = resolve_snapshots (answering []) alice empty_state"
proof -
  let ?st1 = "snd (resolve_snapshots (answering []) alice empty_state)"
  have r: "resolve_snapshots (answering []) alice empty_state = ((''[]'', ''[]''), ?st1)"
    by (simp add: resolve_empty_state)
  have n: "now (answering []) \<le> 10" "10 < now (answering []) + 3600"
    by (simp_all add: answering_def)
  have l: "\<forall>k v e. k \<in> {tasks_cache_key alice, contexts_cache_key alice}
             \<and> cache empty_state k = Some (v, e) \<and> now (answering []) < e \<longrightarrow> 10 < e"
    by (simp add: empty_state_def)
  from resolve_snapshots_read_through[OF r n l]
  have again: "resolve_snapshots ((answering [])\<lparr>now := 10\<rparr>) alice ?st1 = ((''[]'', ''[]''), ?st1)"
    by blast
  have third: "resolve_snapshots ((answering [])\<lparr>now := 10\<rparr>) alice ?st1
      = resolve_snapshots (answering []) alice empty_state"
    by (rule trans[OF again r[symmetric]])
  have first: "fst (resolve_snapshots (answering []) alice empty_state) = (''[]'', ''[]'')"
    by (simp add: resolve_empty_state)
  have second: "queries ?st1 = 2"
    by (subst resolve_empty_state) (simp add: empty_state_def)
  from first second third show ?thesis by blast
qed


section \<open>Cache invalidation\<close>

subsection \<open>Claim C8\<close>

text \<open>
  Claim C8: for a user \<open>u\<close> and any other user \<open>v\<close>, both identified by a UUID, saving
  or deleting a task of \<open>u\<close> removes the tasks-for-processing snapshot of \<open>u\<close> from the
  cache, and saving or deleting a context entry of \<open>u\<close> removes the
  contexts-for-processing snapshot of \<open>u\<close>, so that the next fetch of the processing
  view misses at whatever time it comes; every cache entry keyed to \<open>v\<close> stays as it
  was, with or without deletion by pattern. The same holds for the task views of \<open>u\<close>
  (create, update, \<open>update_status\<close>, destroy): they never touch an entry of \<open>v\<close>, and
  when they succeed the snapshot of \<open>u\<close> is gone.
\<close>

theorem writes_invalidate_own_snapshot_only:
  assumes "is_uuid u" and "is_uuid v" and "v \<noteq> u"
    and "task_user_id t = u" and "entry_user_id e = u"
  shows "cache_hit (cache_get ev2 (save_task ev t st) (tasks_cache_key u)) = None
       \<and> entries_of_user v (save_task ev t st) = entries_of_user v st
       \<and> cache_hit (cache_get ev2 (delete_task ev t st) (tasks_cache_key u)) = None
       \<and> entries_of_user v (delete_task ev t st) = entries_of_user v st
       \<and> cache_hit (cache_get ev2 (save_context_entry ev e st) (contexts_cache_key u)) = None
       \<and> entries_of_user v (save_context_entry ev e st) = entries_of_user v st
       \<and> cache_hit (cache_get ev2 (delete_context_entry ev e st) (contexts_cache_key u)) = None
       \<and> entries_of_user v (delete_context_entry ev e st) = entries_of_user v st
       \<and> (\<forall>w \<in> {task_create ev u data st, task_update ev u pk partial data st,
                   update_status ev u pk data st, task_destroy ev u pk st}.
             entries_of_user v (snd w) = entries_of_user v st \<and>
             (succeeded (fst w) \<longrightarrow>
                cache_hit (cache_get ev2 (snd w) (tasks_cache_key u)) = None))"
proof -
  note uv = assms(1-3)
  have t: "cache (save_task ev t st) = cache (clear_task_caches ev (Some u) st)"
          "cache (delete_task ev t st) = cache (clear_task_caches ev (Some u) st)"
    using assms(4) by (simp_all add: cache_save_task cache_delete_task)
  have c: "cache (save_context_entry ev e st) = cache (clear_context_caches ev (Some u) st)"
          "cache (delete_context_entry ev e st) = cache (clear_context_caches ev (Some u) st)"
    using assms(5) by (simp_all add: cache_save_context_entry cache_delete_context_entry)
  have view: "entries_of_user v (snd w) = entries_of_user v st \<and>
              (succeeded (fst w) \<longrightarrow>
                 cache_hit (cache_get ev2 (snd w) (tasks_cache_key u)) = None)"
    if "cache (snd w) = (if succeeded (fst w) then cache (clear_task_caches ev (Some u) st)
                         else cache st)" for w :: "(pyexc + response) \<times> app_state"
  proof (cases "succeeded (fst w)")
    case True
    with that have "cache (snd w) = cache (clear_task_caches ev (Some u) st)" by simp
    from cleared_tasks[OF this] others_kept_tasks[OF uv disjI1[OF this]] show ?thesis by simp
  next
    case False
    with that have "cache (snd w) = cache st" by simp
    from others_kept_tasks[OF uv disjI2[OF this]] False show ?thesis by simp
  qed
  have views: "entries_of_user v (snd w) = entries_of_user v st \<and>
              (succeeded (fst w) \<longrightarrow>
                 cache_hit (cache_get ev2 (snd w) (tasks_cache_key u)) = None)"
    if "w \<in> {task_create ev u data st, task_update ev u pk partial data st,
              update_status ev u pk data st, task_destroy ev u pk st}" for w
  proof (rule view)
    from that consider
        "task_create ev u data st = (fst w, snd w)"
      | "task_update ev u pk partial data st = (fst w, snd w)"
      | "update_status ev u pk data st = (fst w, snd w)"
      | "task_destroy ev u pk st = (fst w, snd w)"
      by fastforce
    then show "cache (snd w) = (if succeeded (fst w)
                 then cache (clear_task_caches ev (Some u) st) else cache st)"
    proof cases
      case 1
      then show ?thesis by (rule cache_task_create)
    next
      case 2
      then show ?thesis by (rule cache_task_update)
    next
      case 3
      then show ?thesis by (rule cache_update_status)
    next
      case 4
      then show ?thesis by (rule cache_task_destroy)
    qed
  qed
  have "cache_hit (cache_get ev2 (save_task ev t st) (tasks_cache_key u)) = None"
    by (rule cleared_tasks[OF t(1)])
  moreover have "entries_of_user v (save_task ev t st) = entries_of_user v st"
    by (rule others_kept_tasks[OF uv disjI1[OF t(1)]])
  moreover have "cache_hit (cache_get ev2 (delete_task ev t st) (tasks_cache_key u)) = None"
    by (rule cleared_tasks[OF t(2)])
  moreover have "entries_of_user v (delete_task ev t st) = entries_of_user v st"
    by (rule others_kept_tasks[OF uv disjI1[OF t(2)]])
  moreover have "cache_hit (cache_get ev2 (save_context_entry ev e st) (contexts_cache_key u)) = None"
    by (rule cleared_contexts[OF c(1)])
  moreover have "entries_of_user v (save_context_entry ev e st) = entries_of_user v st"
    by (rule others_kept_contexts[OF uv disjI1[OF c(1)]])
  moreover have "cache_hit (cache_get ev2 (delete_context_entry ev e st) (contexts_cache_key u)) = None"
    by (rule cleared_contexts[OF c(2)])
  moreover have "entries_of_user v (delete_context_entry ev e st) = entries_of_user v st"
    by (rule others_kept_contexts[OF uv disjI1[OF c(2)]])
  moreover have "\<forall>w \<in> {task_create ev u data st, task_update ev u pk partial data st,
                   update_status ev u pk data st, task_destroy ev u pk st}.
             entries_of_user v (snd w) = entries_of_user v st \<and>
             (succeeded (fst w) \<longrightarrow>
                cache_hit (cache_get ev2 (snd w) (tasks_cache_key u)) = None)"
    by (rule ballI) (rule views)
  ultimately show ?thesis by (intro conjI)
qed

text \<open>The theorem on a state that holds snapshots of two users, with a backend that
  deletes by pattern.\<close>

theorem writes_invalidate_own_snapshot_only_witness:
  "is_uuid alice \<and> is_uuid bob \<and> bob \<noteq> alice
   \<and> task_user_id (pending_task 1) = alice \<and> entry_user_id note_of_alice = alice
   \<and> cache_hit (cache_get (answering []) warm_state (tasks_cache_key alice)) = Some ''[]''
   \<and> cache_hit (cache_get (answering [])
        (save_task (with_delete_pattern (answering [])) (pending_task 1) warm_state)
        (tasks_cache_key alice)) = None
   \<and> cache_hit (cache_get (answering [])
        (delete_context_entry (with_delete_pattern (answering [])) note_of_alice warm_state)
        (contexts_cache_key alice)) = None
   \<and> entries_of_user bob
        (save_task (with_delete_pattern (answering [])) (pending_task 1) warm_state)
       = entries_of_user bob warm_state
   \<and> entries_of_user bob warm_state ''_tasks_for_processing'' = Some (''[]'', 3600)
   \<and> succeeded (fst (update_status (with_delete_pattern (answering [])) alice 1
                       (JObj [(''status'', JStr ''Completed'')]) warm_state))
   \<and> cache_hit (cache_get (answering [])
        (snd (update_status (with_delete_pattern (answering [])) alice 1
                (JObj [(''status'', JStr ''Completed'')]) warm_state))
        (tasks_cache_key alice)) = None"
proof -
  have h: "is_uuid alice" "is_uuid bob" "bob \<noteq> alice"
    by code_simp+
  have t: "task_user_id (pending_task 1) = alice" "entry_user_id note_of_alice = alice"
    by (simp_all add: pending_task_def note_of_alice_def)
  have before: "cache_hit (cache_get (answering []) warm_state (tasks_cache_key alice)) = Some ''[]''"
    by (simp add: cache_hit_def cache_get_def warm_state_def answering_def)
  have bobs: "entries_of_user bob warm_state ''_tasks_for_processing'' = Some (''[]'', 3600)"
    by (simp add: entries_of_user_def warm_state_def tasks_cache_key_def contexts_cache_key_def
          alice_def bob_def)
  have ok: "succeeded (fst (update_status (with_delete_pattern (answering [])) alice 1
                       (JObj [(''status'', JStr ''Completed'')]) warm_state))"
    by (simp add: update_status_def get_object_def warm_state_def pending_task_def
          succeeded_def plain_response_def)
  from writes_invalidate_own_snapshot_only[OF h t,
         of "answering []" "with_delete_pattern (answering [])" warm_state
            JNull 1 False]
       writes_invalidate_own_snapshot_only[OF h t,
         of "answering []" "with_delete_pattern (answering [])" warm_state
            "JObj [(''status'', JStr ''Completed'')]" 1 False]
       h t before bobs ok
  show ?thesis by simp
qed

end
